theory Spec2Isabelle
  imports Complex_Main
begin

section \<open>Points, vectors and the placement values of fscad.py\<close>

text \<open>
  Coordinates are the doubles of \<^verbatim>\<open>adsk.core.Point3D\<close> and \<^verbatim>\<open>Vector3D\<close>,
  idealised as reals. A \<^verbatim>\<open>Translation\<close> is a Python object that owns one mutable
  \<^verbatim>\<open>Vector3D\<close>; the objects live in a store (a list indexed by address), so that
  "returns self" and "mutates in place" are visible in the model.
\<close>

record Point3D =
  px :: real
  py :: real
  pz :: real

record Vector3D =
  vx :: real
  vy :: real
  vz :: real

definition Point3D_create :: "real \<Rightarrow> real \<Rightarrow> real \<Rightarrow> Point3D" where
  "Point3D_create a b c = \<lparr>px = a, py = b, pz = c\<rparr>"

definition Vector3D_create :: "real \<Rightarrow> real \<Rightarrow> real \<Rightarrow> Vector3D" where
  "Vector3D_create a b c = \<lparr>vx = a, vy = b, vz = c\<rparr>"

definition vectorTo :: "Point3D \<Rightarrow> Point3D \<Rightarrow> Vector3D" where
  \<comment> \<open>\<^verbatim>\<open>p.vectorTo(q)\<close>: the vector from p to q\<close>
  "vectorTo p q = Vector3D_create (px q - px p) (py q - py p) (pz q - pz p)"

definition asVector :: "Point3D \<Rightarrow> Vector3D" where
  "asVector p = Vector3D_create (px p) (py p) (pz p)"

definition setWithArray :: "Vector3D \<Rightarrow> real \<times> real \<times> real \<Rightarrow> Vector3D" where
  "setWithArray v a = (case a of (a0, a1, a2) \<Rightarrow> v\<lparr>vx := a0, vy := a1, vz := a2\<rparr>)"

record Translation =
  t_vector :: Vector3D

type_synonym tstore = "Translation list"

text \<open>What a Python method call evaluates to: \<^verbatim>\<open>None\<close>, or a reference to an object.\<close>

datatype pyref = PyNone | PyRef nat

datatype error =
    ValueError string
  | TypeError
  | NotImplementedError
  | StopIteration
  | IndexError
  | KernelError
  | RecursionError
  | InvalidReference

definition Translation_init :: "Vector3D \<Rightarrow> tstore \<Rightarrow> nat \<times> tstore" where
  "Translation_init v s = (length s, s @ [\<lparr>t_vector = v\<rparr>])"

definition Translation_add :: "nat \<Rightarrow> real \<Rightarrow> tstore \<Rightarrow> error + (pyref \<times> tstore)" where
  "Translation_add self other s =
     (if self < length s then
        let v = t_vector (s ! self);
            v' = setWithArray v (vx v + other, vy v + other, vz v + other)
        in Inr (PyRef self, s[self := (s ! self)\<lparr>t_vector := v'\<rparr>])
      else Inl InvalidReference)"

definition Translation_sub :: "nat \<Rightarrow> real \<Rightarrow> tstore \<Rightarrow> error + (pyref \<times> tstore)" where
  "Translation_sub self other s =
     (if self < length s then
        let v = t_vector (s ! self);
            v' = setWithArray v (vx v - other, vy v - other, vz v - other)
        in Inr (PyNone, s[self := (s ! self)\<lparr>t_vector := v'\<rparr>])
      else Inl InvalidReference)"

definition Translation_mul :: "nat \<Rightarrow> real \<Rightarrow> tstore \<Rightarrow> error + (pyref \<times> tstore)" where
  "Translation_mul self other s =
     (if self < length s then
        let v = t_vector (s ! self);
            v' = setWithArray v (vx v * other, vy v * other, vz v * other)
        in Inr (PyNone, s[self := (s ! self)\<lparr>t_vector := v'\<rparr>])
      else Inl InvalidReference)"

definition Translation_x :: "nat \<Rightarrow> tstore \<Rightarrow> real" where
  "Translation_x self s = vx (t_vector (s ! self))"

definition Translation_y :: "nat \<Rightarrow> tstore \<Rightarrow> real" where
  "Translation_y self s = vy (t_vector (s ! self))"

definition Translation_z :: "nat \<Rightarrow> tstore \<Rightarrow> real" where
  "Translation_z self s = vz (t_vector (s ! self))"

record Place =
  p_point :: Point3D

datatype eq_operand = OpPoint3D Point3D | OpNumber real | OpPlace Place | OpOther

definition Place_eq :: "Place \<Rightarrow> eq_operand \<Rightarrow> tstore \<Rightarrow> error + (nat \<times> tstore)" where
  "Place_eq self other s =
     (case (case other of
              OpPoint3D p \<Rightarrow> Inr p
            | OpNumber a \<Rightarrow> Inr (Point3D_create a a a)
            | OpPlace q \<Rightarrow> Inr (p_point q)
            | OpOther \<Rightarrow> Inl (ValueError ''Unsupported type'')) of
        Inl e \<Rightarrow> Inl e
      | Inr point \<Rightarrow> Inr (Translation_init (vectorTo (p_point self) point) s))"

section \<open>The geometry kernel and the component store\<close>

text \<open>
  \<^verbatim>\<open>Matrix3D\<close>, the B-rep bodies and the planes belong to the host application
  (\<^verbatim>\<open>adsk.core\<close>, \<^verbatim>\<open>adsk.fusion\<close>), not to this repository. Their operations are
  the fields of a kernel record that every function takes as its first argument; the
  types of matrices, bodies and planes are type parameters. An in-place operation of the
  host (\<^verbatim>\<open>a.transformBy(b)\<close>, \<^verbatim>\<open>a.invert()\<close>,
  \<^verbatim>\<open>brep().transform(body, m)\<close>, \<^verbatim>\<open>brep().booleanOperation(target, tool, op)\<close>)
  is the function from the old value of the mutated object to its new value.
\<close>

datatype BooleanTypes = UnionBooleanType | DifferenceBooleanType | IntersectionBooleanType

record ('m, 'b, 'p) kernel =
  k_create :: 'm
  k_transformBy :: "'m \<Rightarrow> 'm \<Rightarrow> 'm"
  k_invert :: "'m \<Rightarrow> 'm"
  k_set_translation :: "'m \<Rightarrow> Vector3D \<Rightarrow> 'm"
  k_setCell :: "'m \<Rightarrow> nat \<Rightarrow> nat \<Rightarrow> real \<Rightarrow> 'm"
  k_setToRotation :: "'m \<Rightarrow> real \<Rightarrow> Vector3D \<Rightarrow> Point3D \<Rightarrow> 'm"
  k_transform :: "'b \<Rightarrow> 'm \<Rightarrow> 'b"
  k_booleanOperation :: "'b \<Rightarrow> 'b \<Rightarrow> BooleanTypes \<Rightarrow> 'b"
  k_faces :: "'b \<Rightarrow> 'b list"
  k_geometry :: "'b \<Rightarrow> 'p"
  k_isCoPlanarTo :: "'p \<Rightarrow> 'p \<Rightarrow> bool"
  k_createBox :: "Point3D \<Rightarrow> Vector3D \<Rightarrow> Vector3D \<Rightarrow> real \<Rightarrow> real \<Rightarrow> real \<Rightarrow> 'b"
  k_createCylinderOrCone :: "Point3D \<Rightarrow> real \<Rightarrow> Point3D \<Rightarrow> real \<Rightarrow> 'b"
  k_createSphere :: "Point3D \<Rightarrow> real \<Rightarrow> 'b"
  k_loft :: "'b list \<Rightarrow> 'b"

text \<open>
  The concrete classes of the module. The class of an object is a field, since
  \<^verbatim>\<open>copy\<close> assigns \<^verbatim>\<open>__class__\<close>.
\<close>

datatype cls =
    Box_cls | Cylinder_cls | Sphere_cls | Rect_cls | Circle_cls
  | Union_cls | Difference_cls | Intersection_cls | Loft_cls

record BoundingBox3D =
  minPoint :: Point3D
  maxPoint :: Point3D

text \<open>
  One Python object. The fields are the attributes of \<^verbatim>\<open>Component\<close> and of its
  subclasses (\<^verbatim>\<open>_parent\<close> is \<open>c_parent\<close>, and so on); an attribute that a class
  does not have keeps its initial value and is never read for that class. References
  are addresses in the store.
\<close>

record ('m, 'b, 'p) component =
  c_class :: cls
  c_parent :: "nat option"
  c_local_transform :: 'm
  c_name :: "string option"
  c_cached_bounding_box :: "BoundingBox3D option"
  c_cached_bodies :: "'b list option"
  c_cached_world_transform :: "'m option"
  c_body :: "'b option"
  c_bottom_index :: "nat option"
  c_top_index :: "nat option"
  c_children :: "nat list"
  c_cached_inverse_transform :: "'m option"
  c_plane :: "'p option"
  c_bodies :: "'b list option"
  c_cached_plane :: "'p option"
  c_cached_plane_populated :: bool

type_synonym ('m, 'b, 'p) heap = "('m, 'b, 'p) component list"

definition update :: "nat \<Rightarrow> (('m, 'b, 'p) component \<Rightarrow> ('m, 'b, 'p) component)
    \<Rightarrow> ('m, 'b, 'p) heap \<Rightarrow> ('m, 'b, 'p) heap" where
  \<comment> \<open>attribute assignment on the object at address r\<close>
  "update r f h = (if r < length h then h[r := f (h ! r)] else h)"

definition alloc :: "('m, 'b, 'p) component \<Rightarrow> ('m, 'b, 'p) heap \<Rightarrow> nat \<times> ('m, 'b, 'p) heap" where
  "alloc c h = (length h, h @ [c])"

definition origin :: Point3D where
  "origin = Point3D_create 0 0 0"

definition null_vector :: Vector3D where
  "null_vector = Vector3D_create 0 0 0"

definition pos_x :: Vector3D where
  "pos_x = Vector3D_create 1 0 0"

definition pos_y :: Vector3D where
  "pos_y = Vector3D_create 0 1 0"

definition pos_z :: Vector3D where
  "pos_z = Vector3D_create 0 0 1"

definition Component_init :: "('m, 'b, 'p) kernel \<Rightarrow> cls \<Rightarrow> string option \<Rightarrow> ('m, 'b, 'p) component" where
  \<comment> \<open>\<^verbatim>\<open>Component.__init__\<close>, for an object of the given class\<close>
  "Component_init K k nm =
     \<lparr>c_class = k, c_parent = None, c_local_transform = k_create K, c_name = nm,
      c_cached_bounding_box = None, c_cached_bodies = None, c_cached_world_transform = None,
      c_body = None, c_bottom_index = None, c_top_index = None,
      c_children = [], c_cached_inverse_transform = None, c_plane = None,
      c_bodies = None, c_cached_plane = None, c_cached_plane_populated = False\<rparr>"

definition is_composite :: "cls \<Rightarrow> bool" where
  \<comment> \<open>the subclasses of \<^verbatim>\<open>ComponentWithChildren\<close>\<close>
  "is_composite k = (k = Union_cls \<or> k = Difference_cls \<or> k = Intersection_cls \<or> k = Loft_cls)"

definition children :: "('m, 'b, 'p) component \<Rightarrow> nat list" where
  \<comment> \<open>\<^verbatim>\<open>children()\<close>: the empty tuple in \<^verbatim>\<open>Component\<close>, the children of a composite\<close>
  "children c = (if is_composite (c_class c) then c_children c else [])"

subsection \<open>Cache invalidation\<close>

text \<open>
  A method call takes the store and returns its outcome together with the store it
  leaves behind: \<open>Inr\<close> the returned value, or \<open>Inl\<close> the exception raised, with
  the store as it was when the exception was raised. The first numeric argument of a
  recursive method is the recursion depth that is left: Python raises
  \<^verbatim>\<open>RecursionError\<close> when it is used up. \<^verbatim>\<open>_reset_cache\<close> is virtual: a composite
  also clears its cached inverse transform, an Intersection its cached plane.
\<close>

definition clear_caches :: "('m, 'b, 'p) component \<Rightarrow> ('m, 'b, 'p) component" where
  "clear_caches c = c\<lparr>c_cached_bodies := None, c_cached_bounding_box := None,
                      c_cached_world_transform := None\<rparr>"

definition clear_subclass_caches :: "('m, 'b, 'p) component \<Rightarrow> ('m, 'b, 'p) component" where
  "clear_subclass_caches c =
     (if c_class c = Intersection_cls
      then c\<lparr>c_cached_inverse_transform := None, c_cached_plane := None,
             c_cached_plane_populated := False\<rparr>
      else if is_composite (c_class c) then c\<lparr>c_cached_inverse_transform := None\<rparr>
      else c)"

fun reset_cache :: "nat \<Rightarrow> nat \<Rightarrow> ('m, 'b, 'p) heap \<Rightarrow> (error + unit) \<times> ('m, 'b, 'p) heap"
  and reset_cache_each :: "nat \<Rightarrow> nat list \<Rightarrow> ('m, 'b, 'p) heap \<Rightarrow> (error + unit) \<times> ('m, 'b, 'p) heap" where
  "reset_cache 0 self h = (Inl RecursionError, h)"
| "reset_cache (Suc n) self h =
     (if self < length h then
        let h1 = update self clear_caches h in
        (case reset_cache_each n (children (h1 ! self)) h1 of
           (Inl e, h2) \<Rightarrow> (Inl e, h2)
         | (Inr u, h2) \<Rightarrow> (Inr (), update self clear_subclass_caches h2))
      else (Inl InvalidReference, h))"
| "reset_cache_each n [] h = (Inr (), h)"
| "reset_cache_each n (k # ks) h =
     (case reset_cache n k h of
        (Inl e, h1) \<Rightarrow> (Inl e, h1)
      | (Inr u, h1) \<Rightarrow> reset_cache_each n ks h1)"

subsection \<open>World transform, bodies and planes\<close>

fun get_world_transform :: "('m, 'b, 'p) kernel \<Rightarrow> nat \<Rightarrow> nat \<Rightarrow> ('m, 'b, 'p) heap
    \<Rightarrow> (error + 'm) \<times> ('m, 'b, 'p) heap" where
  "get_world_transform K 0 self h = (Inl RecursionError, h)"
| "get_world_transform K (Suc n) self h =
     (if self < length h then
        (case c_cached_world_transform (h ! self) of
           Some w \<Rightarrow> (Inr w, h)
         | None \<Rightarrow>
             (case c_parent (h ! self) of
                None \<Rightarrow>
                  let t = c_local_transform (h ! self)
                  in (Inr t, update self (\<lambda>c. c\<lparr>c_cached_world_transform := Some t\<rparr>) h)
              | Some p \<Rightarrow>
                  (case get_world_transform K n p h of
                     (Inl e, h1) \<Rightarrow> (Inl e, h1)
                   | (Inr pw, h1) \<Rightarrow>
                       let t = k_transformBy K (c_local_transform (h ! self)) pw
                       in (Inr t, update self (\<lambda>c. c\<lparr>c_cached_world_transform := Some t\<rparr>) h1))))
      else (Inl InvalidReference, h))"

definition inverse_transform :: "('m, 'b, 'p) kernel \<Rightarrow> nat \<Rightarrow> nat \<Rightarrow> ('m, 'b, 'p) heap
    \<Rightarrow> (error + 'm) \<times> ('m, 'b, 'p) heap" where
  "inverse_transform K n self h =
     (if self < length h then
        (case c_cached_inverse_transform (h ! self) of
           Some i \<Rightarrow> (Inr i, h)
         | None \<Rightarrow>
             (case get_world_transform K n self h of
                (Inl e, h1) \<Rightarrow> (Inl e, h1)
              | (Inr w, h1) \<Rightarrow>
                  let i = k_invert K w
                  in (Inr i, update self (\<lambda>c. c\<lparr>c_cached_inverse_transform := Some i\<rparr>) h1)))
      else (Inl InvalidReference, h))"

definition brep_copy :: "'b option \<Rightarrow> error + 'b" where
  \<comment> \<open>\<^verbatim>\<open>brep().copy(body)\<close>: bodies are values, so the copy of a body is the body;
      the kernel refuses \<^verbatim>\<open>None\<close>\<close>
  "brep_copy b = (case b of None \<Rightarrow> Inl KernelError | Some x \<Rightarrow> Inr x)"

fun brep_copy_each :: "'b option list \<Rightarrow> error + 'b list" where
  "brep_copy_each [] = Inr []"
| "brep_copy_each (b # bs) =
     (case brep_copy b of
        Inl e \<Rightarrow> Inl e
      | Inr x \<Rightarrow> (case brep_copy_each bs of Inl e \<Rightarrow> Inl e | Inr xs \<Rightarrow> Inr (x # xs)))"

definition booleanOperation :: "('m, 'b, 'p) kernel \<Rightarrow> 'b option \<Rightarrow> 'b \<Rightarrow> BooleanTypes \<Rightarrow> error + 'b" where
  \<comment> \<open>\<^verbatim>\<open>brep().booleanOperation(target, tool, op)\<close>: the new value of the target;
      the kernel refuses a target that is \<^verbatim>\<open>None\<close>\<close>
  "booleanOperation K target tool op =
     (case target of None \<Rightarrow> Inl KernelError | Some t \<Rightarrow> Inr (k_booleanOperation K t tool op))"

definition raw_bodies :: "('m, 'b, 'p) component \<Rightarrow> error + 'b option list" where
  \<comment> \<open>\<^verbatim>\<open>_raw_bodies\<close>: \<^verbatim>\<open>[self._body]\<close> for a shape, a Union and a Loft,
      \<^verbatim>\<open>tuple(self._bodies)\<close> for a Difference and an Intersection\<close>
  "raw_bodies c =
     (if c_class c = Difference_cls \<or> c_class c = Intersection_cls
      then (case c_bodies c of None \<Rightarrow> Inl TypeError | Some bs \<Rightarrow> Inr (map Some bs))
      else Inr [c_body c])"

definition bodies :: "('m, 'b, 'p) kernel \<Rightarrow> nat \<Rightarrow> nat \<Rightarrow> ('m, 'b, 'p) heap
    \<Rightarrow> (error + 'b list) \<times> ('m, 'b, 'p) heap" where
  "bodies K n self h =
     (if self < length h then
        (case c_cached_bodies (h ! self) of
           Some bs \<Rightarrow> (Inr bs, h)
         | None \<Rightarrow>
             (case get_world_transform K n self h of
                (Inl e, h1) \<Rightarrow> (Inl e, h1)
              | (Inr world_transform, h1) \<Rightarrow>
                  (case raw_bodies (h1 ! self) of
                     Inl e \<Rightarrow> (Inl e, h1)
                   | Inr raw \<Rightarrow>
                       (case brep_copy_each raw of
                          Inl e \<Rightarrow> (Inl e, h1)
                        | Inr bodies_copy \<Rightarrow>
                            let bs = map (\<lambda>body. k_transform K body world_transform) bodies_copy
                            in (Inr bs, update self (\<lambda>c. c\<lparr>c_cached_bodies := Some bs\<rparr>) h1)))))
      else (Inl InvalidReference, h))"

definition cached_body :: "('m, 'b, 'p) kernel \<Rightarrow> nat \<Rightarrow> nat \<Rightarrow> ('m, 'b, 'p) heap
    \<Rightarrow> (error + 'b) \<times> ('m, 'b, 'p) heap" where
  \<comment> \<open>\<^verbatim>\<open>next(iter(self.bodies()))\<close>\<close>
  "cached_body K n self h =
     (case bodies K n self h of
        (Inl e, h1) \<Rightarrow> (Inl e, h1)
      | (Inr [], h1) \<Rightarrow> (Inl StopIteration, h1)
      | (Inr (b # bs), h1) \<Rightarrow> (Inr b, h1))"

definition face_plane :: "('m, 'b, 'p) kernel \<Rightarrow> nat \<Rightarrow> nat \<Rightarrow> ('m, 'b, 'p) heap
    \<Rightarrow> (error + 'p option) \<times> ('m, 'b, 'p) heap" where
  \<comment> \<open>\<^verbatim>\<open>self._cached_body().faces[0].geometry\<close>, the \<^verbatim>\<open>get_plane\<close> of Rect and Circle\<close>
  "face_plane K n self h =
     (case cached_body K n self h of
        (Inl e, h1) \<Rightarrow> (Inl e, h1)
      | (Inr b, h1) \<Rightarrow>
          (case k_faces K b of
             [] \<Rightarrow> (Inl IndexError, h1)
           | f # fs \<Rightarrow> (Inr (Some (k_geometry K f)), h1)))"

fun get_plane :: "('m, 'b, 'p) kernel \<Rightarrow> nat \<Rightarrow> nat \<Rightarrow> ('m, 'b, 'p) heap
    \<Rightarrow> (error + 'p option) \<times> ('m, 'b, 'p) heap"
  and get_plane_first :: "('m, 'b, 'p) kernel \<Rightarrow> nat \<Rightarrow> nat list \<Rightarrow> ('m, 'b, 'p) heap
    \<Rightarrow> (error + 'p option) \<times> ('m, 'b, 'p) heap" where
  "get_plane K 0 self h = (Inl RecursionError, h)"
| "get_plane K (Suc n) self h =
     (if self < length h then
        (if c_class (h ! self) = Rect_cls \<or> c_class (h ! self) = Circle_cls then
           face_plane K n self h
         else if c_class (h ! self) = Union_cls \<or> c_class (h ! self) = Difference_cls then
           (case children (h ! self) of
              [] \<Rightarrow> (Inr None, h)
            | child # rest \<Rightarrow> get_plane K n child h)
         else if c_class (h ! self) = Intersection_cls then
           (if \<not> c_cached_plane_populated (h ! self) then
              (case get_plane_first K n (children (h ! self)) h of
                 (Inl e, h1) \<Rightarrow> (Inl e, h1)
               | (Inr plane, h1) \<Rightarrow>
                   (Inr plane, update self (\<lambda>c. c\<lparr>c_cached_plane := plane,
                                                   c_cached_plane_populated := True\<rparr>) h1))
            else (Inr (c_cached_plane (h ! self)), h))
         else (Inr None, h))
      else (Inl InvalidReference, h))"
| "get_plane_first K n [] h = (Inr None, h)"
| "get_plane_first K n (child # rest) h =
     (case get_plane K n child h of
        (Inl e, h1) \<Rightarrow> (Inl e, h1)
      | (Inr (Some plane), h1) \<Rightarrow> (Inr (Some plane), h1)
      | (Inr None, h1) \<Rightarrow> get_plane_first K n rest h1)"

subsection \<open>Attaching children and copying\<close>

text \<open>
  \<^verbatim>\<open>_add_children(children, func)\<close>. The callback \<^verbatim>\<open>func\<close> is a closure of the
  calling constructor or \<^verbatim>\<open>add\<close>; the variables it rebinds with \<^verbatim>\<open>nonlocal\<close> are
  the closure state that the loop threads through. The method \<^verbatim>\<open>copy\<close> that the loop
  calls on a child with a parent is an argument, so that the loop is defined before
  \<^verbatim>\<open>copy\<close>, which calls it in turn.
\<close>

fun add_children_loop :: "('m, 'b, 'p) kernel \<Rightarrow> nat
    \<Rightarrow> (nat \<Rightarrow> ('m, 'b, 'p) heap \<Rightarrow> (error + nat) \<times> ('m, 'b, 'p) heap)
    \<Rightarrow> nat \<Rightarrow> nat list
    \<Rightarrow> (nat \<Rightarrow> 's \<Rightarrow> ('m, 'b, 'p) heap \<Rightarrow> (error + 's) \<times> ('m, 'b, 'p) heap) option
    \<Rightarrow> 's \<Rightarrow> ('m, 'b, 'p) heap \<Rightarrow> (error + 's) \<times> ('m, 'b, 'p) heap" where
  "add_children_loop K n copy_method self [] func s h = (Inr s, h)"
| "add_children_loop K n copy_method self (child0 # rest) func s h =
     (if child0 < length h then
        (case (if c_parent (h ! child0) \<noteq> None then copy_method child0 h else (Inr child0, h)) of
           (Inl e, h1) \<Rightarrow> (Inl e, h1)
         | (Inr child, h1) \<Rightarrow>
             (case inverse_transform K n self h1 of
                (Inl e, h2) \<Rightarrow> (Inl e, h2)
              | (Inr inv_m, h2) \<Rightarrow>
                  let h3 = update child
                        (\<lambda>c. c\<lparr>c_local_transform := k_transformBy K (c_local_transform c) inv_m\<rparr>) h2
                  in (case reset_cache n child h3 of
                        (Inl e, h4) \<Rightarrow> (Inl e, h4)
                      | (Inr u, h4) \<Rightarrow>
                          (case (case func of None \<Rightarrow> (Inr s, h4) | Some f \<Rightarrow> f child s h4) of
                             (Inl e, h5) \<Rightarrow> (Inl e, h5)
                           | (Inr s1, h5) \<Rightarrow>
                               let h6 = update child (\<lambda>c. c\<lparr>c_parent := Some self\<rparr>) h5;
                                   h7 = update self (\<lambda>c. c\<lparr>c_children := c_children c @ [child]\<rparr>) h6
                               in add_children_loop K n copy_method self rest func s1 h7))))
      else (Inl InvalidReference, h))"

definition add_children :: "('m, 'b, 'p) kernel \<Rightarrow> nat
    \<Rightarrow> (nat \<Rightarrow> ('m, 'b, 'p) heap \<Rightarrow> (error + nat) \<times> ('m, 'b, 'p) heap)
    \<Rightarrow> nat \<Rightarrow> nat list
    \<Rightarrow> (nat \<Rightarrow> 's \<Rightarrow> ('m, 'b, 'p) heap \<Rightarrow> (error + 's) \<times> ('m, 'b, 'p) heap) option
    \<Rightarrow> 's \<Rightarrow> ('m, 'b, 'p) heap \<Rightarrow> (error + 's) \<times> ('m, 'b, 'p) heap" where
  "add_children K n copy_method self cs func s h =
     (case add_children_loop K n copy_method self cs func s h of
        (Inl e, h1) \<Rightarrow> (Inl e, h1)
      | (Inr s1, h1) \<Rightarrow>
          (case reset_cache n self h1 of
             (Inl e, h2) \<Rightarrow> (Inl e, h2)
           | (Inr u, h2) \<Rightarrow> (Inr s1, h2)))"

text \<open>
  \<^verbatim>\<open>copy\<close> with the \<^verbatim>\<open>_copy_to\<close> of each class: a shape copies its body (a Cylinder
  also its face indices), a Union and a Loft copy \<^verbatim>\<open>self._body\<close>, a Difference and an
  Intersection copy the bodies that \<^verbatim>\<open>self.bodies()\<close> returns; a composite then copies
  its children and attaches the copies with \<^verbatim>\<open>_add_children\<close>.
\<close>

definition copy_to_own :: "('m, 'b, 'p) kernel \<Rightarrow> nat \<Rightarrow> nat \<Rightarrow> nat \<Rightarrow> ('m, 'b, 'p) heap
    \<Rightarrow> (error + unit) \<times> ('m, 'b, 'p) heap" where
  \<comment> \<open>the part of \<^verbatim>\<open>_copy_to\<close> before \<^verbatim>\<open>ComponentWithChildren._copy_to\<close>\<close>
  "copy_to_own K n self cp h =
     (if c_class (h ! self) = Cylinder_cls then
        (case brep_copy (c_body (h ! self)) of
           Inl e \<Rightarrow> (Inl e, h)
         | Inr b \<Rightarrow>
             (Inr (), update cp (\<lambda>c. c\<lparr>c_body := Some b,
                    c_bottom_index := c_bottom_index (h ! self),
                    c_top_index := c_top_index (h ! self)\<rparr>) h))
      else if c_class (h ! self) = Difference_cls then
        (case bodies K n self h of
           (Inl e, h1) \<Rightarrow> (Inl e, h1)
         | (Inr bs, h1) \<Rightarrow>
             (case brep_copy_each (map Some bs) of
                Inl e \<Rightarrow> (Inl e, h1)
              | Inr bs1 \<Rightarrow> (Inr (), update cp (\<lambda>c. c\<lparr>c_bodies := Some bs1\<rparr>) h1)))
      else if c_class (h ! self) = Intersection_cls then
        (case bodies K n self h of
           (Inl e, h1) \<Rightarrow> (Inl e, h1)
         | (Inr bs, h1) \<Rightarrow>
             (case brep_copy_each (map Some bs) of
                Inl e \<Rightarrow> (Inl e, h1)
              | Inr bs1 \<Rightarrow>
                  (Inr (), update cp (\<lambda>c. c\<lparr>c_bodies := Some bs1, c_cached_plane := None,
                         c_cached_plane_populated := False\<rparr>) h1)))
      else
        (case brep_copy (c_body (h ! self)) of
           Inl e \<Rightarrow> (Inl e, h)
         | Inr b \<Rightarrow> (Inr (), update cp (\<lambda>c. c\<lparr>c_body := Some b\<rparr>) h)))"

definition copy_fields :: "'m \<Rightarrow> string option \<Rightarrow> ('m, 'b, 'p) component \<Rightarrow> ('m, 'b, 'p) component" where
  \<comment> \<open>the assignments of \<^verbatim>\<open>copy\<close> to the new object\<close>
  "copy_fields w nm c = c\<lparr>c_local_transform := w, c_cached_bounding_box := None,
      c_cached_bodies := None, c_cached_world_transform := None, c_name := nm\<rparr>"

fun copy :: "('m, 'b, 'p) kernel \<Rightarrow> nat \<Rightarrow> nat \<Rightarrow> ('m, 'b, 'p) heap
    \<Rightarrow> (error + nat) \<times> ('m, 'b, 'p) heap"
  and copy_each :: "('m, 'b, 'p) kernel \<Rightarrow> nat \<Rightarrow> nat list \<Rightarrow> ('m, 'b, 'p) heap
    \<Rightarrow> (error + nat list) \<times> ('m, 'b, 'p) heap" where
  "copy K 0 self h = (Inl RecursionError, h)"
| "copy K (Suc n) self h =
     (if self < length h then
        (case alloc (Component_init K (c_class (h ! self)) None) h of
           (cp, h0) \<Rightarrow>
             (case get_world_transform K n self h0 of
                (Inl e, h1) \<Rightarrow> (Inl e, h1)
              | (Inr w, h1) \<Rightarrow>
                  (case copy_to_own K n self cp (update cp (copy_fields w (c_name (h1 ! self))) h1) of
                     (Inl e, h2) \<Rightarrow> (Inl e, h2)
                   | (Inr u, h2) \<Rightarrow>
                       if is_composite (c_class (h2 ! self)) then
                         let h3 = update cp (\<lambda>c. c\<lparr>c_cached_inverse_transform := None,
                                                      c_children := []\<rparr>) h2
                         in (case copy_each K n (c_children (h3 ! self)) h3 of
                               (Inl e, h4) \<Rightarrow> (Inl e, h4)
                             | (Inr cs, h4) \<Rightarrow>
                                 (case add_children K n (copy K n) cp cs None () h4 of
                                    (Inl e, h5) \<Rightarrow> (Inl e, h5)
                                  | (Inr u1, h5) \<Rightarrow> (Inr cp, h5)))
                       else (Inr cp, h2))))
      else (Inl InvalidReference, h))"
| "copy_each K n [] h = (Inr [], h)"
| "copy_each K n (child # rest) h =
     (case copy K n child h of
        (Inl e, h1) \<Rightarrow> (Inl e, h1)
      | (Inr c1, h1) \<Rightarrow>
          (case copy_each K n rest h1 of
             (Inl e, h2) \<Rightarrow> (Inl e, h2)
           | (Inr cs, h2) \<Rightarrow> (Inr (c1 # cs), h2)))"

subsection \<open>The transform mutators\<close>

text \<open>Each mutator returns \<^verbatim>\<open>self\<close>; the model returns the unit value for it.\<close>

datatype center = CenterNone | CenterPoint Point3D | CenterSeq "real list"

definition center_point :: "center \<Rightarrow> Point3D" where
  "center_point center =
     (case center of
        CenterNone \<Rightarrow> origin
      | CenterPoint p \<Rightarrow> p
      | CenterSeq xs \<Rightarrow>
          let cs = take 3 xs; cs3 = cs @ replicate (3 - length cs) 0
          in Point3D_create (cs3 ! 0) (cs3 ! 1) (cs3 ! 2))"

definition transform_local :: "('m, 'b, 'p) kernel \<Rightarrow> 'm \<Rightarrow> nat \<Rightarrow> ('m, 'b, 'p) heap \<Rightarrow> ('m, 'b, 'p) heap" where
  \<comment> \<open>\<^verbatim>\<open>self._local_transform.transformBy(m)\<close>\<close>
  "transform_local K m self h =
     update self (\<lambda>c. c\<lparr>c_local_transform := k_transformBy K (c_local_transform c) m\<rparr>) h"

definition translate :: "('m, 'b, 'p) kernel \<Rightarrow> nat \<Rightarrow> nat \<Rightarrow> real \<Rightarrow> real \<Rightarrow> real
    \<Rightarrow> ('m, 'b, 'p) heap \<Rightarrow> (error + unit) \<times> ('m, 'b, 'p) heap" where
  "translate K n self tx ty tz h =
     (if self < length h then
        let translation = k_set_translation K (k_create K) (Vector3D_create tx ty tz)
        in reset_cache n self (transform_local K translation self h)
      else (Inl InvalidReference, h))"

definition tx :: "('m, 'b, 'p) kernel \<Rightarrow> nat \<Rightarrow> nat \<Rightarrow> real
    \<Rightarrow> ('m, 'b, 'p) heap \<Rightarrow> (error + unit) \<times> ('m, 'b, 'p) heap" where
  "tx K n self d h = translate K n self d 0 0 h"

definition ty :: "('m, 'b, 'p) kernel \<Rightarrow> nat \<Rightarrow> nat \<Rightarrow> real
    \<Rightarrow> ('m, 'b, 'p) heap \<Rightarrow> (error + unit) \<times> ('m, 'b, 'p) heap" where
  "ty K n self d h = translate K n self 0 d 0 h"

definition tz :: "('m, 'b, 'p) kernel \<Rightarrow> nat \<Rightarrow> nat \<Rightarrow> real
    \<Rightarrow> ('m, 'b, 'p) heap \<Rightarrow> (error + unit) \<times> ('m, 'b, 'p) heap" where
  "tz K n self d h = translate K n self 0 0 d h"

definition place :: "('m, 'b, 'p) kernel \<Rightarrow> nat \<Rightarrow> nat \<Rightarrow> Vector3D \<Rightarrow> Vector3D \<Rightarrow> Vector3D
    \<Rightarrow> ('m, 'b, 'p) heap \<Rightarrow> (error + unit) \<times> ('m, 'b, 'p) heap" where
  \<comment> \<open>the arguments are the vectors of the three Translation operands\<close>
  "place K n self x y z h =
     (if self < length h then
        let transform = k_set_translation K (k_create K) (Vector3D_create (vx x) (vy y) (vz z))
        in reset_cache n self (transform_local K transform self h)
      else (Inl InvalidReference, h))"

definition radians :: "real \<Rightarrow> real" where
  "radians d = d * pi / 180"

definition rotate :: "('m, 'b, 'p) kernel \<Rightarrow> nat \<Rightarrow> nat \<Rightarrow> real \<Rightarrow> real \<Rightarrow> real \<Rightarrow> center
    \<Rightarrow> ('m, 'b, 'p) heap \<Rightarrow> (error + unit) \<times> ('m, 'b, 'p) heap" where
  "rotate K n self rx ry rz center h =
     (if self < length h then
        let cp = center_point center;
            h1 = (if rx \<noteq> 0
                  then transform_local K (k_setToRotation K (k_create K) (radians rx) pos_x cp) self h
                  else h);
            h2 = (if ry \<noteq> 0
                  then transform_local K (k_setToRotation K (k_create K) (radians ry) pos_y cp) self h1
                  else h1);
            h3 = (if rz \<noteq> 0
                  then transform_local K (k_setToRotation K (k_create K) (radians rz) pos_z cp) self h2
                  else h2)
        in reset_cache n self h3
      else (Inl InvalidReference, h))"

definition rx :: "('m, 'b, 'p) kernel \<Rightarrow> nat \<Rightarrow> nat \<Rightarrow> real \<Rightarrow> center
    \<Rightarrow> ('m, 'b, 'p) heap \<Rightarrow> (error + unit) \<times> ('m, 'b, 'p) heap" where
  "rx K n self angle center h = rotate K n self angle 0 0 center h"

definition ry :: "('m, 'b, 'p) kernel \<Rightarrow> nat \<Rightarrow> nat \<Rightarrow> real \<Rightarrow> center
    \<Rightarrow> ('m, 'b, 'p) heap \<Rightarrow> (error + unit) \<times> ('m, 'b, 'p) heap" where
  "ry K n self angle center h = rotate K n self 0 angle 0 center h"

definition rz :: "('m, 'b, 'p) kernel \<Rightarrow> nat \<Rightarrow> nat \<Rightarrow> real \<Rightarrow> center
    \<Rightarrow> ('m, 'b, 'p) heap \<Rightarrow> (error + unit) \<times> ('m, 'b, 'p) heap" where
  "rz K n self angle center h = rotate K n self 0 0 angle center h"

definition scale_translation :: "('m, 'b, 'p) kernel \<Rightarrow> center \<Rightarrow> 'm" where
  \<comment> \<open>the matrix \<^verbatim>\<open>translation\<close> of \<^verbatim>\<open>scale\<close> after its first \<^verbatim>\<open>invert()\<close>\<close>
  "scale_translation K center =
     k_invert K (k_set_translation K (k_create K) (asVector (center_point center)))"

definition scale_matrix :: "('m, 'b, 'p) kernel \<Rightarrow> real \<Rightarrow> real \<Rightarrow> real \<Rightarrow> 'm" where
  "scale_matrix K sx sy sz = k_setCell K (k_setCell K (k_setCell K (k_create K) 0 0 sx) 1 1 sy) 2 2 sz"

definition scale :: "('m, 'b, 'p) kernel \<Rightarrow> nat \<Rightarrow> nat \<Rightarrow> real \<Rightarrow> real \<Rightarrow> real \<Rightarrow> center
    \<Rightarrow> ('m, 'b, 'p) heap \<Rightarrow> (error + unit) \<times> ('m, 'b, 'p) heap" where
  "scale K n self sx sy sz center h =
     (if self < length h then
        if \<bar>sx\<bar> \<noteq> \<bar>sy\<bar> \<or> \<bar>sy\<bar> \<noteq> \<bar>sz\<bar>
        then (Inl (ValueError ''Non-uniform scaling is not currently supported''), h)
        else
          let translation = scale_translation K center;
              h1 = transform_local K translation self h;
              h2 = transform_local K (scale_matrix K sx sy sz) self h1;
              h3 = transform_local K (k_invert K translation) self h2
          in reset_cache n self h3
      else (Inl InvalidReference, h))"

subsection \<open>Leaf shapes\<close>

definition Shape_init :: "('m, 'b, 'p) kernel \<Rightarrow> cls \<Rightarrow> 'b \<Rightarrow> string option
    \<Rightarrow> ('m, 'b, 'p) heap \<Rightarrow> nat \<times> ('m, 'b, 'p) heap" where
  \<comment> \<open>\<^verbatim>\<open>Shape.__init__(body, name)\<close> for a new object of the given class\<close>
  "Shape_init K k body nm h = alloc ((Component_init K k nm)\<lparr>c_body := Some body\<rparr>) h"

definition bottom_index :: nat where
  \<comment> \<open>\<^verbatim>\<open>Box._bottom_index\<close>\<close>
  "bottom_index = 1"

definition Box_init :: "('m, 'b, 'p) kernel \<Rightarrow> real \<Rightarrow> real \<Rightarrow> real \<Rightarrow> string option
    \<Rightarrow> ('m, 'b, 'p) heap \<Rightarrow> nat \<times> ('m, 'b, 'p) heap" where
  "Box_init K x y z nm h =
     Shape_init K Box_cls
       (k_createBox K (Point3D_create (x / 2) (y / 2) (z / 2)) pos_x pos_y x y z) nm h"

definition Sphere_init :: "('m, 'b, 'p) kernel \<Rightarrow> real \<Rightarrow> string option
    \<Rightarrow> ('m, 'b, 'p) heap \<Rightarrow> nat \<times> ('m, 'b, 'p) heap" where
  "Sphere_init K radius nm h = Shape_init K Sphere_cls (k_createSphere K origin radius) nm h"

definition Rect_init :: "('m, 'b, 'p) kernel \<Rightarrow> real \<Rightarrow> real \<Rightarrow> string option
    \<Rightarrow> ('m, 'b, 'p) heap \<Rightarrow> (error + nat) \<times> ('m, 'b, 'p) heap" where
  "Rect_init K x y nm h =
     (let box = k_createBox K (Point3D_create (x / 2) (y / 2) (1 / 2)) pos_x pos_y x y 1
      in if bottom_index < length (k_faces K box)
         then (case Shape_init K Rect_cls (k_faces K box ! bottom_index) nm h of
                 (self, h1) \<Rightarrow> (Inr self, h1))
         else (Inl IndexError, h))"

definition Circle_init :: "('m, 'b, 'p) kernel \<Rightarrow> real \<Rightarrow> string option
    \<Rightarrow> ('m, 'b, 'p) heap \<Rightarrow> (error + nat) \<times> ('m, 'b, 'p) heap" where
  "Circle_init K radius nm h =
     (let cylinder = k_createCylinderOrCone K (Point3D_create 0 0 (- 1)) radius origin radius
      in if 2 < length (k_faces K cylinder)
         then (case Shape_init K Circle_cls (k_faces K cylinder ! 2) nm h of
                 (self, h1) \<Rightarrow> (Inr self, h1))
         else (Inl IndexError, h))"

subsection \<open>Union\<close>

definition Union_check_coplanarity :: "('m, 'b, 'p) kernel \<Rightarrow> nat \<Rightarrow> nat \<Rightarrow> nat
    \<Rightarrow> ('m, 'b, 'p) heap \<Rightarrow> (error + unit) \<times> ('m, 'b, 'p) heap" where
  "Union_check_coplanarity K n self child h =
     (if c_body (h ! self) \<noteq> None then
        (case get_plane K n self h of
           (Inl e, h1) \<Rightarrow> (Inl e, h1)
         | (Inr plane, h1) \<Rightarrow>
             (case get_plane K n child h1 of
                (Inl e, h2) \<Rightarrow> (Inl e, h2)
              | (Inr child_plane, h2) \<Rightarrow>
                  if (child_plane = None) \<noteq> (plane = None)
                  then (Inl (ValueError ''Cannot union a planar entity with a 3d entity''), h2)
                  else
                    (case plane of
                       None \<Rightarrow> (Inr (), h2)
                     | Some pl \<Rightarrow>
                         (case child_plane of
                            None \<Rightarrow> (Inr (), h2)
                          | Some cpl \<Rightarrow>
                              if \<not> k_isCoPlanarTo K pl cpl
                              then (Inl (ValueError ''Cannot union planar entities that are non-coplanar''), h2)
                              else (Inr (), h2)))))
      else (Inr (), h))"

fun Union_init_bodies :: "('m, 'b, 'p) kernel \<Rightarrow> nat \<Rightarrow> nat \<Rightarrow> nat \<Rightarrow> 'b list
    \<Rightarrow> ('m, 'b, 'p) heap \<Rightarrow> (error + unit) \<times> ('m, 'b, 'p) heap" where
  \<comment> \<open>the loop over \<^verbatim>\<open>child.bodies()\<close> in the constructor's \<^verbatim>\<open>process_child\<close>\<close>
  "Union_init_bodies K n self child [] h = (Inr (), h)"
| "Union_init_bodies K n self child (body # rest) h =
     (case c_body (h ! self) of
        None \<Rightarrow>
          (case brep_copy (Some body) of
             Inl e \<Rightarrow> (Inl e, h)
           | Inr b \<Rightarrow>
               (case get_plane K n child (update self (\<lambda>c. c\<lparr>c_body := Some b\<rparr>) h) of
                  (Inl e, h1) \<Rightarrow> (Inl e, h1)
                | (Inr pl, h1) \<Rightarrow>
                    Union_init_bodies K n self child rest (update self (\<lambda>c. c\<lparr>c_plane := pl\<rparr>) h1)))
      | Some t \<Rightarrow>
          (case booleanOperation K (Some t) body UnionBooleanType of
             Inl e \<Rightarrow> (Inl e, h)
           | Inr t1 \<Rightarrow>
               Union_init_bodies K n self child rest (update self (\<lambda>c. c\<lparr>c_body := Some t1\<rparr>) h)))"

definition Union_init_process_child :: "('m, 'b, 'p) kernel \<Rightarrow> nat \<Rightarrow> nat \<Rightarrow> nat \<Rightarrow> unit
    \<Rightarrow> ('m, 'b, 'p) heap \<Rightarrow> (error + unit) \<times> ('m, 'b, 'p) heap" where
  "Union_init_process_child K n self child u h =
     (case Union_check_coplanarity K n self child h of
        (Inl e, h1) \<Rightarrow> (Inl e, h1)
      | (Inr u1, h1) \<Rightarrow>
          (case bodies K n child h1 of
             (Inl e, h2) \<Rightarrow> (Inl e, h2)
           | (Inr bs, h2) \<Rightarrow> Union_init_bodies K n self child bs h2))"

definition Union_init :: "('m, 'b, 'p) kernel \<Rightarrow> nat \<Rightarrow> nat list \<Rightarrow> string option
    \<Rightarrow> ('m, 'b, 'p) heap \<Rightarrow> (error + nat) \<times> ('m, 'b, 'p) heap" where
  "Union_init K n components nm h =
     (case alloc (Component_init K Union_cls nm) h of
        (self, h0) \<Rightarrow>
          (case add_children K n (copy K n) self components
                  (Some (Union_init_process_child K n self)) () h0 of
             (Inl e, h1) \<Rightarrow> (Inl e, h1)
           | (Inr u, h1) \<Rightarrow> (Inr self, h1)))"

fun Union_add_bodies :: "('m, 'b, 'p) kernel \<Rightarrow> nat \<Rightarrow> 'b list
    \<Rightarrow> ('m, 'b, 'p) heap \<Rightarrow> (error + unit) \<times> ('m, 'b, 'p) heap" where
  \<comment> \<open>the loop over \<^verbatim>\<open>child.bodies()\<close> in the \<^verbatim>\<open>process_child\<close> of \<^verbatim>\<open>add\<close>\<close>
  "Union_add_bodies K self [] h = (Inr (), h)"
| "Union_add_bodies K self (body # rest) h =
     (case booleanOperation K (c_body (h ! self)) body UnionBooleanType of
        Inl e \<Rightarrow> (Inl e, h)
      | Inr t1 \<Rightarrow> Union_add_bodies K self rest (update self (\<lambda>c. c\<lparr>c_body := Some t1\<rparr>) h))"

definition Union_add_process_child :: "('m, 'b, 'p) kernel \<Rightarrow> nat \<Rightarrow> nat \<Rightarrow> nat \<Rightarrow> unit
    \<Rightarrow> ('m, 'b, 'p) heap \<Rightarrow> (error + unit) \<times> ('m, 'b, 'p) heap" where
  "Union_add_process_child K n self child u h =
     (case Union_check_coplanarity K n self child h of
        (Inl e, h1) \<Rightarrow> (Inl e, h1)
      | (Inr u1, h1) \<Rightarrow>
          (case bodies K n child h1 of
             (Inl e, h2) \<Rightarrow> (Inl e, h2)
           | (Inr bs, h2) \<Rightarrow> Union_add_bodies K self bs h2))"

definition Union_add :: "('m, 'b, 'p) kernel \<Rightarrow> nat \<Rightarrow> nat \<Rightarrow> nat list
    \<Rightarrow> ('m, 'b, 'p) heap \<Rightarrow> (error + unit) \<times> ('m, 'b, 'p) heap" where
  "Union_add K n self components h =
     add_children K n (copy K n) self components (Some (Union_add_process_child K n self)) () h"

subsection \<open>Difference and Intersection\<close>

fun fold_targets :: "('m, 'b, 'p) kernel \<Rightarrow> nat \<Rightarrow> nat \<Rightarrow> nat \<Rightarrow> BooleanTypes \<Rightarrow> nat list
    \<Rightarrow> ('m, 'b, 'p) heap \<Rightarrow> (error + unit) \<times> ('m, 'b, 'p) heap" where
  \<comment> \<open>\<^verbatim>\<open>for target_body in self._bodies: for tool_body in child.bodies(): booleanOperation(...)\<close>,
      over the positions of the targets; each target is changed in place\<close>
  "fold_targets K n self child op [] h = (Inr (), h)"
| "fold_targets K n self child op (i # rest) h =
     (case bodies K n child h of
        (Inl e, h1) \<Rightarrow> (Inl e, h1)
      | (Inr tools, h1) \<Rightarrow>
          fold_targets K n self child op rest
            (update self (\<lambda>c. c\<lparr>c_bodies :=
                map_option (\<lambda>bs. bs[i := foldl (\<lambda>t tool. k_booleanOperation K t tool op) (bs ! i) tools])
                  (c_bodies c)\<rparr>) h1))"

definition apply_to_targets :: "('m, 'b, 'p) kernel \<Rightarrow> nat \<Rightarrow> nat \<Rightarrow> nat \<Rightarrow> BooleanTypes
    \<Rightarrow> ('m, 'b, 'p) heap \<Rightarrow> (error + unit) \<times> ('m, 'b, 'p) heap" where
  "apply_to_targets K n self child op h =
     (case c_bodies (h ! self) of
        None \<Rightarrow> (Inl TypeError, h)
      | Some ts \<Rightarrow> fold_targets K n self child op [0..<length ts] h)"

definition seed_or_apply :: "('m, 'b, 'p) kernel \<Rightarrow> nat \<Rightarrow> nat \<Rightarrow> nat \<Rightarrow> BooleanTypes
    \<Rightarrow> ('m, 'b, 'p) heap \<Rightarrow> (error + unit) \<times> ('m, 'b, 'p) heap" where
  \<comment> \<open>the body of the constructors' \<^verbatim>\<open>process_child\<close> after the coplanarity check\<close>
  "seed_or_apply K n self child op h =
     (case c_bodies (h ! self) of
        None \<Rightarrow>
          (case bodies K n child h of
             (Inl e, h1) \<Rightarrow> (Inl e, h1)
           | (Inr bs, h1) \<Rightarrow>
               (case brep_copy_each (map Some bs) of
                  Inl e \<Rightarrow> (Inl e, h1)
                | Inr bs1 \<Rightarrow> (Inr (), update self (\<lambda>c. c\<lparr>c_bodies := Some bs1\<rparr>) h1)))
      | Some ts \<Rightarrow> apply_to_targets K n self child op h)"

definition Difference_check_coplanarity :: "('m, 'b, 'p) kernel \<Rightarrow> nat \<Rightarrow> nat \<Rightarrow> nat
    \<Rightarrow> ('m, 'b, 'p) heap \<Rightarrow> (error + unit) \<times> ('m, 'b, 'p) heap" where
  "Difference_check_coplanarity K n self child h =
     (if c_bodies (h ! self) \<noteq> None \<and> length (the (c_bodies (h ! self))) > 0 then
        (case get_plane K n self h of
           (Inl e, h1) \<Rightarrow> (Inl e, h1)
         | (Inr plane, h1) \<Rightarrow>
             (case get_plane K n child h1 of
                (Inl e, h2) \<Rightarrow> (Inl e, h2)
              | (Inr child_plane, h2) \<Rightarrow>
                  (case plane of
                     None \<Rightarrow>
                       if child_plane \<noteq> None
                       then (Inl (ValueError ''Cannot subtract a planar entity from a 3d entity''), h2)
                       else (Inr (), h2)
                   | Some pl \<Rightarrow>
                       (case child_plane of
                          None \<Rightarrow> (Inr (), h2)
                        | Some cpl \<Rightarrow>
                            if \<not> k_isCoPlanarTo K pl cpl
                            then (Inl (ValueError ''Cannot subtract planar entities that are non-coplanar''), h2)
                            else (Inr (), h2)))))
      else (Inr (), h))"

definition Difference_init_process_child :: "('m, 'b, 'p) kernel \<Rightarrow> nat \<Rightarrow> nat \<Rightarrow> nat \<Rightarrow> unit
    \<Rightarrow> ('m, 'b, 'p) heap \<Rightarrow> (error + unit) \<times> ('m, 'b, 'p) heap" where
  "Difference_init_process_child K n self child u h =
     (case Difference_check_coplanarity K n self child h of
        (Inl e, h1) \<Rightarrow> (Inl e, h1)
      | (Inr u1, h1) \<Rightarrow> seed_or_apply K n self child DifferenceBooleanType h1)"

definition Difference_init :: "('m, 'b, 'p) kernel \<Rightarrow> nat \<Rightarrow> nat list \<Rightarrow> string option
    \<Rightarrow> ('m, 'b, 'p) heap \<Rightarrow> (error + nat) \<times> ('m, 'b, 'p) heap" where
  "Difference_init K n components nm h =
     (case alloc (Component_init K Difference_cls nm) h of
        (self, h0) \<Rightarrow>
          (case add_children K n (copy K n) self components
                  (Some (Difference_init_process_child K n self)) () h0 of
             (Inl e, h1) \<Rightarrow> (Inl e, h1)
           | (Inr u, h1) \<Rightarrow> (Inr self, h1)))"

definition Difference_add_process_child :: "('m, 'b, 'p) kernel \<Rightarrow> nat \<Rightarrow> nat \<Rightarrow> nat \<Rightarrow> unit
    \<Rightarrow> ('m, 'b, 'p) heap \<Rightarrow> (error + unit) \<times> ('m, 'b, 'p) heap" where
  "Difference_add_process_child K n self child u h =
     (case Difference_check_coplanarity K n self child h of
        (Inl e, h1) \<Rightarrow> (Inl e, h1)
      | (Inr u1, h1) \<Rightarrow> apply_to_targets K n self child DifferenceBooleanType h1)"

definition Difference_add :: "('m, 'b, 'p) kernel \<Rightarrow> nat \<Rightarrow> nat \<Rightarrow> nat list
    \<Rightarrow> ('m, 'b, 'p) heap \<Rightarrow> (error + unit) \<times> ('m, 'b, 'p) heap" where
  "Difference_add K n self components h =
     add_children K n (copy K n) self components (Some (Difference_add_process_child K n self)) () h"

definition Intersection_check_coplanarity :: "('m, 'b, 'p) kernel \<Rightarrow> nat \<Rightarrow> nat \<Rightarrow> nat
    \<Rightarrow> 'p option \<Rightarrow> ('m, 'b, 'p) heap \<Rightarrow> (error + 'p option) \<times> ('m, 'b, 'p) heap" where
  "Intersection_check_coplanarity K n self child plane h =
     (if c_bodies (h ! self) \<noteq> None \<and> length (the (c_bodies (h ! self))) > 0 then
        (case get_plane K n child h of
           (Inl e, h1) \<Rightarrow> (Inl e, h1)
         | (Inr child_plane, h1) \<Rightarrow>
             (case plane of
                Some pl \<Rightarrow>
                  (case child_plane of
                     None \<Rightarrow> (Inr plane, h1)
                   | Some cpl \<Rightarrow>
                       if \<not> k_isCoPlanarTo K pl cpl
                       then (Inl (ValueError ''Cannot intersect planar entities that are non-coplanar''), h1)
                       else (Inr plane, h1))
              | None \<Rightarrow>
                  (case child_plane of
                     Some cpl \<Rightarrow> (Inr child_plane, h1)
                   | None \<Rightarrow> (Inr None, h1))))
      else get_plane K n child h)"



definition Intersection_add_process_child :: "('m, 'b, 'p) kernel \<Rightarrow> nat \<Rightarrow> nat \<Rightarrow> nat
    \<Rightarrow> 'p option \<Rightarrow> ('m, 'b, 'p) heap \<Rightarrow> (error + 'p option) \<times> ('m, 'b, 'p) heap" where
  "Intersection_add_process_child K n self child plane h =
     (case Intersection_check_coplanarity K n self child plane h of
        (Inl e, h1) \<Rightarrow> (Inl e, h1)
      | (Inr plane1, h1) \<Rightarrow>
          (case apply_to_targets K n self child IntersectionBooleanType h1 of
             (Inl e, h2) \<Rightarrow> (Inl e, h2)
           | (Inr u, h2) \<Rightarrow> (Inr plane1, h2)))"

definition Intersection_add :: "('m, 'b, 'p) kernel \<Rightarrow> nat \<Rightarrow> nat \<Rightarrow> nat list
    \<Rightarrow> ('m, 'b, 'p) heap \<Rightarrow> (error + unit) \<times> ('m, 'b, 'p) heap" where
  "Intersection_add K n self components h =
     (case get_plane K n self h of
        (Inl e, h0) \<Rightarrow> (Inl e, h0)
      | (Inr plane, h0) \<Rightarrow>
          (case add_children K n (copy K n) self components
                  (Some (Intersection_add_process_child K n self)) plane h0 of
             (Inl e, h1) \<Rightarrow> (Inl e, h1)
           | (Inr plane1, h1) \<Rightarrow> (Inr (), h1)))"

subsection \<open>Loft\<close>

fun single_face :: "'b list \<Rightarrow> 'b option \<Rightarrow> error + 'b option" where
  \<comment> \<open>the loops of the Loft constructor over the faces of the child's bodies\<close>
  "single_face [] component_face = Inr component_face"
| "single_face (face # rest) None = single_face rest (Some face)"
| "single_face (face # rest) (Some f) = Inl (ValueError ''A loft section must have only 1 face'')"

definition Loft_process_child :: "('m, 'b, 'p) kernel \<Rightarrow> nat \<Rightarrow> nat \<Rightarrow> 'b list
    \<Rightarrow> ('m, 'b, 'p) heap \<Rightarrow> (error + 'b list) \<times> ('m, 'b, 'p) heap" where
  "Loft_process_child K n child loft_sections h =
     (case get_plane K n child h of
        (Inl e, h1) \<Rightarrow> (Inl e, h1)
      | (Inr None, h1) \<Rightarrow> (Inl (ValueError ''Only planar geometry can be used with Loft''), h1)
      | (Inr (Some pl), h1) \<Rightarrow>
          (case bodies K n child h1 of
             (Inl e, h2) \<Rightarrow> (Inl e, h2)
           | (Inr bs, h2) \<Rightarrow>
               (case single_face (concat (map (k_faces K) bs)) None of
                  Inl e \<Rightarrow> (Inl e, h2)
                | Inr component_face \<Rightarrow>
                    (case brep_copy component_face of
                       Inl e \<Rightarrow> (Inl e, h2)
                     | Inr f \<Rightarrow> (Inr (loft_sections @ [f]), h2)))))"

definition Loft_init :: "('m, 'b, 'p) kernel \<Rightarrow> nat \<Rightarrow> nat list \<Rightarrow> string option
    \<Rightarrow> ('m, 'b, 'p) heap \<Rightarrow> (error + nat) \<times> ('m, 'b, 'p) heap" where
  "Loft_init K n components nm h =
     (case alloc (Component_init K Loft_cls nm) h of
        (self, h0) \<Rightarrow>
          (case add_children K n (copy K n) self components
                  (Some (Loft_process_child K n)) [] h0 of
             (Inl e, h1) \<Rightarrow> (Inl e, h1)
           | (Inr loft_sections, h1) \<Rightarrow>
               (Inr self, update self (\<lambda>c. c\<lparr>c_body := Some (k_loft K loft_sections)\<rparr>) h1)))"

section \<open>Notions for stating the properties\<close>

text \<open>
  The node that \<^verbatim>\<open>_reset_cache\<close> leaves behind, the descendants of a node along the
  lists of children, and a bound on the depth of the subtree below a node:
  \<open>subtree_ok n h r\<close> holds when every path of children from r stays inside the
  store and ends after fewer than n nodes, so that a recursion depth of n is enough to
  walk the subtree.
\<close>

definition reset_node :: "('m, 'b, 'p) component \<Rightarrow> ('m, 'b, 'p) component" where
  "reset_node c = clear_subclass_caches (clear_caches c)"

definition child_rel :: "('m, 'b, 'p) heap \<Rightarrow> (nat \<times> nat) set" where
  "child_rel h = {(p, k). p < length h \<and> k \<in> set (children (h ! p))}"

definition descendant :: "('m, 'b, 'p) heap \<Rightarrow> nat \<Rightarrow> nat \<Rightarrow> bool" where
  "descendant h r d = ((r, d) \<in> (child_rel h)\<^sup>*)"

fun subtree_ok :: "nat \<Rightarrow> ('m, 'b, 'p) heap \<Rightarrow> nat \<Rightarrow> bool" where
  "subtree_ok 0 h r = False"
| "subtree_ok (Suc n) h r = (r < length h \<and> list_all (subtree_ok n h) (children (h ! r)))"


text \<open>The transform mutators as data, for statements about all of them.\<close>

datatype mutation =
    Translate real real real | Tx real | Ty real | Tz real
  | Rotate real real real center | Rx real center | Ry real center | Rz real center
  | Scale real real real center
  | Place Vector3D Vector3D Vector3D

fun mutate :: "('m, 'b, 'p) kernel \<Rightarrow> nat \<Rightarrow> nat \<Rightarrow> mutation \<Rightarrow> ('m, 'b, 'p) heap
    \<Rightarrow> (error + unit) \<times> ('m, 'b, 'p) heap" where
  "mutate K n self (Translate a b c) h = translate K n self a b c h"
| "mutate K n self (Tx a) h = tx K n self a h"
| "mutate K n self (Ty a) h = ty K n self a h"
| "mutate K n self (Tz a) h = tz K n self a h"
| "mutate K n self (Rotate a b c ctr) h = rotate K n self a b c ctr h"
| "mutate K n self (Rx a ctr) h = rx K n self a ctr h"
| "mutate K n self (Ry a ctr) h = ry K n self a ctr h"
| "mutate K n self (Rz a ctr) h = rz K n self a ctr h"
| "mutate K n self (Scale a b c ctr) h = scale K n self a b c ctr h"
| "mutate K n self (Place x y z) h = place K n self x y z h"

fun uniform :: "mutation \<Rightarrow> bool" where
  "uniform (Scale a b c ctr) = (\<bar>a\<bar> = \<bar>b\<bar> \<and> \<bar>b\<bar> = \<bar>c\<bar>)"
| "uniform m = True"

definition local_changed :: "nat \<Rightarrow> ('m, 'b, 'p) heap \<Rightarrow> ('m, 'b, 'p) heap \<Rightarrow> bool" where
  \<comment> \<open>the second store is the first one but for the local transform of the node\<close>
  "local_changed self h h0 =
     (length h0 = length h \<and> (\<forall>x < length h. x \<noteq> self \<longrightarrow> h0 ! x = h ! x)
      \<and> (\<exists>m. h0 ! self = (h ! self)\<lparr>c_local_transform := m\<rparr>))"

text \<open>
  The world transform of a node as the parent chain defines it, caches ignored: the local
  transform of a root, and the local transform transformed by the world transform of the
  parent otherwise (\<open>None\<close> when the chain is longer than the given depth or leaves the
  store). \<open>chain_ok\<close> is the bound on the chain alone. A store is a well-formed
  forest when every node with a parent is in the list of children of that parent and
  every cached world transform is the one the parent chain defines. The actions are the
  calls whose sequences the property is about.
\<close>

fun world :: "('m, 'b, 'p) kernel \<Rightarrow> nat \<Rightarrow> ('m, 'b, 'p) heap \<Rightarrow> nat \<Rightarrow> 'm option" where
  "world K 0 h r = None"
| "world K (Suc n) h r =
     (if r < length h then
        (case c_parent (h ! r) of
           None \<Rightarrow> Some (c_local_transform (h ! r))
         | Some p \<Rightarrow> map_option (k_transformBy K (c_local_transform (h ! r))) (world K n h p))
      else None)"

fun chain_ok :: "nat \<Rightarrow> ('m, 'b, 'p) heap \<Rightarrow> nat \<Rightarrow> bool" where
  "chain_ok 0 h r = False"
| "chain_ok (Suc n) h r =
     (r < length h \<and> (case c_parent (h ! r) of None \<Rightarrow> True | Some p \<Rightarrow> chain_ok n h p))"

definition parents_listed :: "('m, 'b, 'p) heap \<Rightarrow> bool" where
  "parents_listed h =
     (\<forall>x < length h. \<forall>p. c_parent (h ! x) = Some p \<longrightarrow> p < length h \<and> x \<in> set (children (h ! p)))"

definition cache_ok :: "('m, 'b, 'p) kernel \<Rightarrow> ('m, 'b, 'p) heap \<Rightarrow> bool" where
  "cache_ok K h =
     (\<forall>x < length h. \<forall>w. c_cached_world_transform (h ! x) = Some w \<longrightarrow> (\<exists>n. world K n h x = Some w))"

definition tree_ok :: "('m, 'b, 'p) kernel \<Rightarrow> ('m, 'b, 'p) heap \<Rightarrow> bool" where
  "tree_ok K h = (parents_listed h \<and> cache_ok K h)"

datatype action = Mutate nat mutation | Invalidate nat | Query nat

fun step :: "('m, 'b, 'p) kernel \<Rightarrow> nat \<Rightarrow> action \<Rightarrow> ('m, 'b, 'p) heap
    \<Rightarrow> (error + unit) \<times> ('m, 'b, 'p) heap" where
  "step K n (Mutate r m) h = mutate K n r m h"
| "step K n (Invalidate r) h = reset_cache n r h"
| "step K n (Query r) h =
     (case get_world_transform K n r h of
        (Inl e, h1) \<Rightarrow> (Inl e, h1)
      | (Inr w, h1) \<Rightarrow> (Inr (), h1))"

fun run :: "('m, 'b, 'p) kernel \<Rightarrow> nat \<Rightarrow> action list \<Rightarrow> ('m, 'b, 'p) heap
    \<Rightarrow> (error + unit) \<times> ('m, 'b, 'p) heap" where
  "run K n [] h = (Inr (), h)"
| "run K n (a # as) h =
     (case step K n a h of
        (Inl e, h1) \<Rightarrow> (Inl e, h1)
      | (Inr u, h1) \<Rightarrow> run K n as h1)"

definition cache_filled :: "('m, 'b, 'p) kernel \<Rightarrow> ('m, 'b, 'p) heap \<Rightarrow> ('m, 'b, 'p) heap \<Rightarrow> bool" where
  "cache_filled K h h' =
     (length h' = length h \<and>
      (\<forall>x < length h. h' ! x = h ! x \<or>
         (\<exists>v m. h' ! x = (h ! x)\<lparr>c_cached_world_transform := Some v\<rparr> \<and> world K m h x = Some v)))"

definition neg_vector :: "Vector3D \<Rightarrow> Vector3D" where
  "neg_vector v = Vector3D_create (- vx v) (- vy v) (- vz v)"

definition translation_matrix :: "('m, 'b, 'p) kernel \<Rightarrow> Vector3D \<Rightarrow> 'm" where
  \<comment> \<open>a fresh matrix whose \<^verbatim>\<open>translation\<close> was set to v\<close>
  "translation_matrix K v = k_set_translation K (k_create K) v"

text \<open>
  Notions for the coplanarity checks of the boolean operators: the planes that
  \<^verbatim>\<open>get_plane\<close> returned for the operator and for the incoming child, and the store
  in which \<^verbatim>\<open>_add_children\<close> runs the check on a child.
\<close>

definition planar_mix :: "'p option \<Rightarrow> 'p option \<Rightarrow> bool" where
  \<comment> \<open>one of the two is planar (has a plane) and the other is not\<close>
  "planar_mix plane child_plane = ((plane = None) \<noteq> (child_plane = None))"

definition not_coplanar :: "('m, 'b, 'p) kernel \<Rightarrow> 'p option \<Rightarrow> 'p option \<Rightarrow> bool" where
  "not_coplanar K plane child_plane =
     (case plane of None \<Rightarrow> False
      | Some pl \<Rightarrow> (case child_plane of None \<Rightarrow> False | Some cpl \<Rightarrow> \<not> k_isCoPlanarTo K pl cpl))"

definition reexpressed :: "('m, 'b, 'p) kernel \<Rightarrow> nat \<Rightarrow> 'm \<Rightarrow> ('m, 'b, 'p) heap \<Rightarrow> ('m, 'b, 'p) heap" where
  \<comment> \<open>\<^verbatim>\<open>child._local_transform.transformBy(inverse)\<close> in \<^verbatim>\<open>_add_children\<close>\<close>
  "reexpressed K child inv_m h =
     update child (\<lambda>c. c\<lparr>c_local_transform := k_transformBy K (c_local_transform c) inv_m\<rparr>) h"

definition rect_faces_ok :: "('m, 'b, 'p) kernel \<Rightarrow> real \<Rightarrow> real \<Rightarrow> bool" where
  \<comment> \<open>the kernel gives the box of \<^verbatim>\<open>Rect(x, y)\<close> a bottom face, and the face still has a
      face after it is transformed\<close>
  "rect_faces_ok K x y =
     (let box = k_createBox K (Point3D_create (x / 2) (y / 2) (1 / 2)) pos_x pos_y x y 1
      in bottom_index < length (k_faces K box)
         \<and> k_faces K (k_transform K (k_faces K box ! bottom_index)
               (k_transformBy K (k_create K) (k_invert K (k_create K)))) \<noteq> [])"





section \<open>A kernel for the examples\<close>

text \<open>
  A small kernel to run the model on: the similarities of the x axis. A matrix is a pair
  (s, t) that stands for \<open>x \<mapsto> s * x + t\<close>; a body is the name of its shape and the
  placement applied to it; the plane of a face is its offset along the axis.
\<close>

definition affine_then :: "real \<times> real \<Rightarrow> real \<times> real \<Rightarrow> real \<times> real" where
  "affine_then a b = (fst b * fst a, fst b * snd a + snd b)"

definition K0 :: "(real \<times> real, string \<times> real \<times> real, real) kernel" where
  "K0 = \<lparr>k_create = (1, 0),
         k_transformBy = affine_then,
         k_invert = (\<lambda>a. if fst a = 0 then a else (1 / fst a, - snd a / fst a)),
         k_set_translation = (\<lambda>a v. (fst a, vx v)),
         k_setCell = (\<lambda>a i j x. if i = 0 \<and> j = 0 then (x, snd a) else a),
         k_setToRotation = (\<lambda>a angle axis c. (1, 0)),
         k_transform = (\<lambda>b m. (fst b, affine_then (snd b) m)),
         k_booleanOperation = (\<lambda>t tool op. (fst t @ ''*'' @ fst tool, snd t)),
         k_faces = (\<lambda>b. if fst b = ''box'' then replicate 6 (''face'', snd b)
                         else if fst b = ''cyl'' then replicate 3 (''face'', snd b) else [b]),
         k_geometry = (\<lambda>b. snd (snd b)),
         k_isCoPlanarTo = (\<lambda>p q. p = q),
         k_createBox = (\<lambda>c lx ly x y z. (''box'', (1, 0))),
         k_createCylinderOrCone = (\<lambda>p r q r2. (''cyl'', (1, 0))),
         k_createSphere = (\<lambda>c r. (''sphere'', (1, 0))),
         k_loft = (\<lambda>bs. (''loft'', (1, 0)))\<rparr>"

text \<open>
  A store with every cache filled: a Box (address 0) inside a Union (address 1) inside a
  Union (address 2) that was moved by 5.
\<close>

definition bbox5 :: BoundingBox3D where
  "bbox5 = \<lparr>minPoint = Point3D_create 5 0 0, maxPoint = Point3D_create 6 1 1\<rparr>"

definition tree3 :: "(real \<times> real, string \<times> real \<times> real, real) heap" where
  "tree3 =
    [(Component_init K0 Box_cls None)\<lparr>c_parent := Some 1, c_body := Some (''box'', (1, 0)),
        c_cached_world_transform := Some (1, 5), c_cached_bodies := Some [(''box'', (1, 5))],
        c_cached_bounding_box := Some bbox5\<rparr>,
     (Component_init K0 Union_cls None)\<lparr>c_parent := Some 2, c_body := Some (''box'', (1, 0)),
        c_children := [0],
        c_cached_world_transform := Some (1, 5), c_cached_bodies := Some [(''box'', (1, 5))],
        c_cached_bounding_box := Some bbox5, c_cached_inverse_transform := Some (1, - 5)\<rparr>,
     (Component_init K0 Union_cls None)\<lparr>c_local_transform := (1, 5), c_body := Some (''box'', (1, 0)),
        c_children := [1],
        c_cached_world_transform := Some (1, 5), c_cached_bodies := Some [(''box'', (1, 5))],
        c_cached_bounding_box := Some bbox5, c_cached_inverse_transform := Some (1, - 5)\<rparr>]"

text \<open>
  Two unit rectangles (addresses 0 and 1, the second one moved by 3), a box (address 2)
  and the Union of the first rectangle (address 3).
\<close>

definition two_rects :: "(real \<times> real, string \<times> real \<times> real, real) heap" where
  "two_rects =
     snd (Union_init K0 2 [0] None
       (snd (Box_init K0 1 1 1 None
         (snd (tx K0 2 1 3
           (snd (Rect_init K0 1 1 None
             (snd (Rect_init K0 1 1 None [])))))))))"

text \<open>
  Stores that calls of the public interface build, each with the kernel above. In
  \<open>moved_union\<close>: two boxes (addresses 0 and 1), a rectangle (address 2) and the
  Union of the first box (address 3), moved by 5 after its construction.
  \<open>after_failed_add\<close> is the store that \<^verbatim>\<open>u.add(b1, r)\<close> leaves behind.
\<close>

definition moved_union :: "(real \<times> real, string \<times> real \<times> real, real) heap" where
  "moved_union =
     snd (tx K0 5 3 5
       (snd (Union_init K0 5 [0] None
         (snd (Rect_init K0 1 1 None
           (snd (Box_init K0 1 1 1 None
             (snd (Box_init K0 1 1 1 None [])))))))))"

definition after_failed_add :: "(real \<times> real, string \<times> real \<times> real, real) heap" where
  "after_failed_add = snd (Union_add K0 5 3 [1, 2] moved_union)"

text \<open>
  In \<open>nested_union\<close>: two boxes (addresses 0 and 1), the Union \<open>u\<close> of the first
  box (address 2), moved by 5, and the Union \<open>a\<close> of the second box (address 3).
  \<open>after_nested_add\<close> is the store after \<^verbatim>\<open>u.add(a, b1)\<close>, and
  \<open>after_separate_adds\<close> the store after \<^verbatim>\<open>u.add(a)\<close> and then \<^verbatim>\<open>u.add(b1)\<close>.
\<close>

definition nested_union :: "(real \<times> real, string \<times> real \<times> real, real) heap" where
  "nested_union =
     snd (Union_init K0 5 [1] None
       (snd (tx K0 5 2 5
         (snd (Union_init K0 5 [0] None
           (snd (Box_init K0 1 1 1 None
             (snd (Box_init K0 1 1 1 None [])))))))))"

definition after_nested_add :: "(real \<times> real, string \<times> real \<times> real, real) heap" where
  "after_nested_add = snd (Union_add K0 5 2 [3, 1] nested_union)"

definition after_separate_adds :: "(real \<times> real, string \<times> real \<times> real, real) heap" where
  "after_separate_adds = snd (Union_add K0 5 2 [1] (snd (Union_add K0 5 2 [3] nested_union)))"


text \<open>
  In \<open>empty_union\<close>: a box (address 0) and a Union constructed with no component
  (address 1). In \<open>moved_difference\<close>: a box (address 0) and the Difference of the
  box (address 1), moved by 5; \<open>after_copy\<close> is the store after \<^verbatim>\<open>copy\<close> of the
  Difference, the copy at address 2.
\<close>

definition empty_union :: "(real \<times> real, string \<times> real \<times> real, real) heap" where
  "empty_union = snd (Union_init K0 5 [] None (snd (Box_init K0 1 1 1 None [])))"

definition moved_difference :: "(real \<times> real, string \<times> real \<times> real, real) heap" where
  "moved_difference =
     snd (tx K0 5 1 5 (snd (Difference_init K0 5 [0] None (snd (Box_init K0 1 1 1 None [])))))"

definition after_copy :: "(real \<times> real, string \<times> real \<times> real, real) heap" where
  "after_copy = snd (copy K0 5 1 moved_difference)"










section \<open>Translation arithmetic\<close>

text \<open>
  C10. For the Translation t that an alignment expression between two Place operands
  produces, and every number k: \<^verbatim>\<open>t + k\<close> evaluates to t itself, after k was added to each
  of the x, y and z components of t's vector in place; \<^verbatim>\<open>t - k\<close> and \<^verbatim>\<open>t * k\<close>
  change the vector in the same way (componentwise difference and product) but evaluate
  to None.
\<close>

theorem Translation_arith:
  assumes "Place_eq a (OpPlace b) s = Inr (t, s1)"
  shows "(\<exists>s2. Translation_add t k s1 = Inr (PyRef t, s2)
           \<and> length s2 = length s1 \<and> (\<forall>i. i \<noteq> t \<longrightarrow> s2 ! i = s1 ! i)
           \<and> Translation_x t s2 = Translation_x t s1 + k
           \<and> Translation_y t s2 = Translation_y t s1 + k
           \<and> Translation_z t s2 = Translation_z t s1 + k)
       \<and> (\<exists>s2. Translation_sub t k s1 = Inr (PyNone, s2)
           \<and> length s2 = length s1 \<and> (\<forall>i. i \<noteq> t \<longrightarrow> s2 ! i = s1 ! i)
           \<and> Translation_x t s2 = Translation_x t s1 - k
           \<and> Translation_y t s2 = Translation_y t s1 - k
           \<and> Translation_z t s2 = Translation_z t s1 - k)
       \<and> (\<exists>s2. Translation_mul t k s1 = Inr (PyNone, s2)
           \<and> length s2 = length s1 \<and> (\<forall>i. i \<noteq> t \<longrightarrow> s2 ! i = s1 ! i)
           \<and> Translation_x t s2 = Translation_x t s1 * k
           \<and> Translation_y t s2 = Translation_y t s1 * k
           \<and> Translation_z t s2 = Translation_z t s1 * k)"
proof -
  from assms have "t = length s"
    and "s1 = s @ [\<lparr>t_vector = vectorTo (p_point a) (p_point b)\<rparr>]"
    by (auto simp: Place_eq_def Translation_init_def)
  then have lt: "t < length s1" by simp
  have A: "\<exists>s2. Translation_add t k s1 = Inr (PyRef t, s2)
           \<and> length s2 = length s1 \<and> (\<forall>i. i \<noteq> t \<longrightarrow> s2 ! i = s1 ! i)
           \<and> Translation_x t s2 = Translation_x t s1 + k
           \<and> Translation_y t s2 = Translation_y t s1 + k
           \<and> Translation_z t s2 = Translation_z t s1 + k"
    using lt by (simp add: Translation_add_def Translation_x_def Translation_y_def
        Translation_z_def setWithArray_def Let_def)
  have B: "\<exists>s2. Translation_sub t k s1 = Inr (PyNone, s2)
           \<and> length s2 = length s1 \<and> (\<forall>i. i \<noteq> t \<longrightarrow> s2 ! i = s1 ! i)
           \<and> Translation_x t s2 = Translation_x t s1 - k
           \<and> Translation_y t s2 = Translation_y t s1 - k
           \<and> Translation_z t s2 = Translation_z t s1 - k"
    using lt by (simp add: Translation_sub_def Translation_x_def Translation_y_def
        Translation_z_def setWithArray_def Let_def)
  have C: "\<exists>s2. Translation_mul t k s1 = Inr (PyNone, s2)
           \<and> length s2 = length s1 \<and> (\<forall>i. i \<noteq> t \<longrightarrow> s2 ! i = s1 ! i)
           \<and> Translation_x t s2 = Translation_x t s1 * k
           \<and> Translation_y t s2 = Translation_y t s1 * k
           \<and> Translation_z t s2 = Translation_z t s1 * k"
    using lt by (simp add: Translation_mul_def Translation_x_def Translation_y_def
        Translation_z_def setWithArray_def Let_def)
  from A B C show ?thesis by blast
qed

definition place_a :: Place where
  "place_a = \<lparr>p_point = Point3D_create 0 0 0\<rparr>"

definition place_b :: Place where
  "place_b = \<lparr>p_point = Point3D_create 1 2 3\<rparr>"

theorem Translation_arith_witness:
  "Place_eq place_a (OpPlace place_b) [] = Inr (0, [\<lparr>t_vector = Vector3D_create 1 2 3\<rparr>])
   \<and> Translation_add 0 5 [\<lparr>t_vector = Vector3D_create 1 2 3\<rparr>]
       = Inr (PyRef 0, [\<lparr>t_vector = Vector3D_create 6 7 8\<rparr>])
   \<and> Translation_sub 0 5 [\<lparr>t_vector = Vector3D_create 1 2 3\<rparr>]
       = Inr (PyNone, [\<lparr>t_vector = Vector3D_create (-4) (-3) (-2)\<rparr>])
   \<and> Translation_mul 0 5 [\<lparr>t_vector = Vector3D_create 1 2 3\<rparr>]
       = Inr (PyNone, [\<lparr>t_vector = Vector3D_create 5 10 15\<rparr>])"
proof -
  have h: "Place_eq place_a (OpPlace place_b) [] = Inr (0, [\<lparr>t_vector = Vector3D_create 1 2 3\<rparr>])"
    by (simp add: Place_eq_def Translation_init_def place_a_def place_b_def vectorTo_def
        Point3D_create_def Vector3D_create_def)
  from Translation_arith [OF h, of 5] h show ?thesis
    by (simp add: Translation_add_def Translation_sub_def Translation_mul_def
        Translation_x_def Translation_y_def Translation_z_def setWithArray_def
        Vector3D_create_def Let_def)
qed


section \<open>Cache invalidation walks the subtree\<close>

lemma length_update [simp]: "length (update r f h) = length h"
  by (simp add: update_def)

lemma nth_update: "update r f h ! x = (if x = r \<and> r < length h then f (h ! r) else h ! x)"
  by (simp add: update_def)

lemma children_clear_caches [simp]: "children (clear_caches c) = children c"
  by (simp add: children_def clear_caches_def)

lemma children_clear_subclass_caches [simp]: "children (clear_subclass_caches c) = children c"
  by (simp add: children_def clear_subclass_caches_def)

lemma children_reset_node [simp]: "children (reset_node c) = children c"
  by (simp add: reset_node_def)

lemma reset_node_idem [simp]: "reset_node (reset_node c) = reset_node c"
  by (simp add: reset_node_def clear_caches_def clear_subclass_caches_def)

lemma clear_subclass_reset_clear [simp]:
  "clear_subclass_caches (reset_node (clear_caches c)) = reset_node c"
  by (simp add: reset_node_def clear_caches_def clear_subclass_caches_def)

lemma child_rel_cong: "map children h1 = map children h \<Longrightarrow> child_rel h1 = child_rel h"
proof -
  assume a: "map children h1 = map children h"
  then have l: "length h1 = length h" using map_eq_imp_length_eq by blast
  have "\<And>p. p < length h \<Longrightarrow> children (h1 ! p) = children (h ! p)"
  proof -
    fix p assume p: "p < length h"
    have "map children h1 ! p = map children h ! p" using a by simp
    then show "children (h1 ! p) = children (h ! p)" using p l by simp
  qed
  then show ?thesis using l unfolding child_rel_def by auto
qed

lemma descendant_cong: "map children h1 = map children h \<Longrightarrow> descendant h1 = descendant h"
  using child_rel_cong[of h1 h] by (simp add: descendant_def fun_eq_iff)

lemma map_children_update:
  "(\<And>c. children (f c) = children c) \<Longrightarrow> map children (update r f h) = map children h"
proof -
  assume a: "\<And>c. children (f c) = children c"
  show ?thesis
  proof (cases "r < length h")
    case True
    have "map children (h[r := f (h ! r)]) = (map children h)[r := children (h ! r)]"
      by (simp add: map_update a)
    also have "\<dots> = map children h"
      using True by (metis length_map list_update_id nth_map)
    finally show ?thesis using True by (simp add: update_def)
  next
    case False
    then show ?thesis by (simp add: update_def)
  qed
qed

lemma descendant_refl [simp]: "descendant h r r"
  by (simp add: descendant_def)

lemma descendant_step:
  "r < length h \<Longrightarrow> k \<in> set (children (h ! r)) \<Longrightarrow> descendant h k d \<Longrightarrow> descendant h r d"
  unfolding descendant_def
  by (rule converse_rtrancl_into_rtrancl[of r k]) (simp_all add: child_rel_def)

lemma descendant_cases:
  assumes "descendant h r d"
  shows "d = r \<or> (r < length h \<and> (\<exists>k \<in> set (children (h ! r)). descendant h k d))"
proof -
  from assms have "(r, d) \<in> (child_rel h)\<^sup>*" by (simp add: descendant_def)
  then show ?thesis
  proof (cases rule: converse_rtranclE)
    case base
    then show ?thesis by simp
  next
    case (step y)
    then have "r < length h" "y \<in> set (children (h ! r))" "descendant h y d"
      by (simp_all add: child_rel_def descendant_def)
    then show ?thesis by blast
  qed
qed

lemma descendant_unfold:
  "descendant h r d \<longleftrightarrow> d = r \<or> (r < length h \<and> (\<exists>k \<in> set (children (h ! r)). descendant h k d))"
  using descendant_cases descendant_step descendant_refl by blast

lemma reset_cache_shape:
  "reset_cache n r (h :: ('m, 'b, 'p) heap) = (res, h') \<Longrightarrow> map children h' = map children h"
  "reset_cache_each n ks (h :: ('m, 'b, 'p) heap) = (res, h') \<Longrightarrow> map children h' = map children h"
proof (induction n r h and n ks h arbitrary: res h' and res h' rule: reset_cache_reset_cache_each.induct)
  case (1 self h)
  then show ?case by simp
next
  case (2 n self h)
  show ?case
  proof (cases "self < length h")
    case False
    with 2 show ?thesis by simp
  next
    case True
    obtain r2 h2 where e: "reset_cache_each n (children (update self clear_caches h ! self)) (update self clear_caches h) = (r2, h2)"
      by fastforce
    from "2.IH"[OF True refl e] have "map children h2 = map children (update self clear_caches h)" .
    then have m: "map children h2 = map children h" by (simp add: map_children_update)
    from "2.prems" True e have "h' = h2 \<or> h' = update self clear_subclass_caches h2"
      by (auto simp: Let_def split: sum.splits)
    then show ?thesis using m by (auto simp: map_children_update)
  qed
next
  case (3 n h)
  then show ?case by simp
next
  case (4 n k ks h)
  obtain r1 h1 where e: "reset_cache n k h = (r1, h1)" by fastforce
  from "4.IH"(1)[OF e] have m1: "map children h1 = map children h" .
  show ?case
  proof (cases r1)
    case (Inl e1)
    with 4 e m1 show ?thesis by simp
  next
    case (Inr u)
    with "4.prems" e have "reset_cache_each n ks h1 = (res, h')" by simp
    from "4.IH"(2)[OF e[symmetric] _ this] Inr m1 show ?thesis by simp
  qed
qed


lemma reset_cache_length:
  "reset_cache n r (h :: ('m, 'b, 'p) heap) = (res, h') \<Longrightarrow> length h' = length h"
  using reset_cache_shape(1)[of n r h res h'] map_eq_imp_length_eq by blast

lemma reset_cache_each_length:
  "reset_cache_each n ks (h :: ('m, 'b, 'p) heap) = (res, h') \<Longrightarrow> length h' = length h"
  using reset_cache_shape(2)[of n ks h res h'] map_eq_imp_length_eq by blast

lemma reset_cache_exact:
  "reset_cache n r (h :: ('m, 'b, 'p) heap) = (Inr u, h') \<Longrightarrow>
     \<forall>x < length h. h' ! x = (if descendant h r x then reset_node (h ! x) else h ! x)"
  "reset_cache_each n ks (h :: ('m, 'b, 'p) heap) = (Inr u, h') \<Longrightarrow>
     \<forall>x < length h. h' ! x = (if \<exists>k \<in> set ks. descendant h k x then reset_node (h ! x) else h ! x)"
proof (induction n r h and n ks h arbitrary: u h' and u h' rule: reset_cache_reset_cache_each.induct)
  case (1 self h)
  then show ?case by simp
next
  case (2 n self h)
  have valid: "self < length h"
  proof (rule ccontr)
    assume "\<not> self < length h"
    with "2.prems" show False by simp
  qed
  define h1 where "h1 = update self clear_caches h"
  have m1: "map children h1 = map children h" unfolding h1_def by (rule map_children_update) simp
  have l1: "length h1 = length h" unfolding h1_def by simp
  have ch: "children (h1 ! self) = children (h ! self)"
    unfolding h1_def using valid by (simp add: nth_update)
  obtain r2 h2 where e: "reset_cache_each n (children (h1 ! self)) h1 = (r2, h2)"
    by (cases "reset_cache_each n (children (h1 ! self)) h1") blast
  have unf: "reset_cache (Suc n) self h =
      (case reset_cache_each n (children (h1 ! self)) h1 of
           (Inl e, h2) \<Rightarrow> (Inl e, h2)
         | (Inr u, h2) \<Rightarrow> (Inr (), update self clear_subclass_caches h2))"
    using valid unfolding h1_def by (simp add: Let_def)
  from "2.prems" have r2: "r2 = Inr ()" and h': "h' = update self clear_subclass_caches h2"
    unfolding unf e by (cases r2; simp)+
  from e r2 have e': "reset_cache_each n (children (h1 ! self)) h1 = (Inr (), h2)" by simp
  have ih: "\<forall>x < length h1. h2 ! x = (if \<exists>k \<in> set (children (h1 ! self)). descendant h1 k x
                 then reset_node (h1 ! x) else h1 ! x)"
    by (rule "2.IH"[OF valid h1_def e'])
  have l2: "length h2 = length h" using reset_cache_each_length[OF e] l1 by simp
  have dc: "descendant h1 = descendant h" by (rule descendant_cong[OF m1])
  show ?case
  proof (intro allI impI)
    fix x assume x: "x < length h"
    have ihx: "h2 ! x = (if \<exists>k \<in> set (children (h ! self)). descendant h k x
                 then reset_node (h1 ! x) else h1 ! x)"
      using ih[rule_format, of x] x l1 unfolding ch dc by simp
    show "h' ! x = (if descendant h self x then reset_node (h ! x) else h ! x)"
    proof (cases "x = self")
      case True
      have h1s: "h1 ! self = clear_caches (h ! self)"
        unfolding h1_def using valid by (simp add: nth_update)
      have "h2 ! self = reset_node (clear_caches (h ! self)) \<or> h2 ! self = clear_caches (h ! self)"
        using ihx unfolding True h1s by presburger
      then have "clear_subclass_caches (h2 ! self) = reset_node (h ! self)"
      proof
        assume "h2 ! self = reset_node (clear_caches (h ! self))"
        then show ?thesis by simp
      next
        assume "h2 ! self = clear_caches (h ! self)"
        then show ?thesis by (simp add: reset_node_def)
      qed
      moreover have "h' ! self = clear_subclass_caches (h2 ! self)"
        unfolding h' using valid l2 by (simp add: nth_update)
      ultimately show ?thesis unfolding True by simp
    next
      case False
      have h1x: "h1 ! x = h ! x" unfolding h1_def using False by (simp add: nth_update)
      have "h' ! x = h2 ! x" unfolding h' using False by (simp add: nth_update)
      also have "\<dots> = (if \<exists>k \<in> set (children (h ! self)). descendant h k x
                 then reset_node (h ! x) else h ! x)"
        using ihx unfolding h1x .
      also have "\<dots> = (if descendant h self x then reset_node (h ! x) else h ! x)"
        using descendant_unfold[of h self x] False valid by simp
      finally show ?thesis .
    qed
  qed
next
  case (3 n h)
  then show ?case by simp
next
  case (4 n k ks h)
  obtain r1 h1 where e: "reset_cache n k h = (r1, h1)"
    by (cases "reset_cache n k h") blast
  have unf: "reset_cache_each n (k # ks) h =
     (case r1 of Inl e \<Rightarrow> (Inl e, h1) | Inr u \<Rightarrow> reset_cache_each n ks h1)"
    by (simp add: e split: sum.splits)
  from "4.prems" obtain u1 where r1: "r1 = Inr u1" and rest: "reset_cache_each n ks h1 = (Inr u, h')"
    unfolding unf by (cases r1) simp_all
  have e1: "reset_cache n k h = (Inr u1, h1)" using e r1 by simp
  have m1: "map children h1 = map children h" using reset_cache_shape(1)[OF e] .
  have l1: "length h1 = length h" using reset_cache_length[OF e] .
  have dc: "descendant h1 = descendant h" by (rule descendant_cong[OF m1])
  have ih1: "\<forall>x < length h. h1 ! x = (if descendant h k x then reset_node (h ! x) else h ! x)"
    by (rule "4.IH"(1)[OF e1])
  have ih2: "\<forall>x < length h1. h' ! x = (if \<exists>k \<in> set ks. descendant h1 k x
                then reset_node (h1 ! x) else h1 ! x)"
    by (rule "4.IH"(2)[OF e1[symmetric] refl rest])
  show ?case
  proof (intro allI impI)
    fix x assume x: "x < length h"
    have a: "h1 ! x = (if descendant h k x then reset_node (h ! x) else h ! x)"
      using ih1 x by blast
    have b: "h' ! x = (if \<exists>k \<in> set ks. descendant h k x then reset_node (h1 ! x) else h1 ! x)"
      using ih2[rule_format, of x] x l1 unfolding dc by simp
    show "h' ! x = (if \<exists>k \<in> set (k # ks). descendant h k x then reset_node (h ! x) else h ! x)"
      unfolding b a by simp
  qed
qed


lemma subtree_ok_cong:
  "map children h1 = map children h \<Longrightarrow> subtree_ok n h1 r = subtree_ok n h r"
proof (induction n arbitrary: r)
  case 0
  then show ?case by simp
next
  case (Suc n)
  have l: "length h1 = length h" using Suc.prems map_eq_imp_length_eq by blast
  show ?case
  proof (cases "r < length h")
    case True
    have "map children h1 ! r = map children h ! r" using Suc.prems by simp
    then have c: "children (h1 ! r) = children (h ! r)" using True l by simp
    have "list_all (subtree_ok n h1) (children (h ! r)) = list_all (subtree_ok n h) (children (h ! r))"
      using Suc.IH[OF Suc.prems] by (simp add: list_all_iff)
    then show ?thesis using True l c by simp
  next
    case False
    then show ?thesis using l by simp
  qed
qed

lemma reset_cache_total:
  "subtree_ok n (h :: ('m, 'b, 'p) heap) r \<Longrightarrow> \<exists>h'. reset_cache n r h = (Inr (), h')"
  "list_all (subtree_ok n h) ks \<Longrightarrow> \<exists>h'. reset_cache_each n ks (h :: ('m, 'b, 'p) heap) = (Inr (), h')"
proof (induction n r h and n ks h rule: reset_cache_reset_cache_each.induct)
  case (1 self h)
  then show ?case by simp
next
  case (2 n self h)
  from "2.prems" have valid: "self < length h"
    and kids: "list_all (subtree_ok n h) (children (h ! self))" by simp_all
  define h1 where "h1 = update self clear_caches h"
  have m1: "map children h1 = map children h" unfolding h1_def by (rule map_children_update) simp
  have ch: "children (h1 ! self) = children (h ! self)"
    unfolding h1_def using valid by (simp add: nth_update)
  have "list_all (subtree_ok n h1) (children (h1 ! self))"
    using kids unfolding ch by (simp add: list_all_iff subtree_ok_cong[OF m1])
  from "2.IH"[OF valid h1_def this] obtain h2 where
    e: "reset_cache_each n (children (h1 ! self)) h1 = (Inr (), h2)" by blast
  have "reset_cache (Suc n) self h = (Inr (), update self clear_subclass_caches h2)"
    using valid e unfolding h1_def by (simp add: Let_def)
  then show ?case by blast
next
  case (3 n h)
  then show ?case by simp
next
  case (4 n k ks h)
  from "4.prems" have k: "subtree_ok n h k" and ks: "list_all (subtree_ok n h) ks" by simp_all
  from "4.IH"(1)[OF k] obtain h1 where e: "reset_cache n k h = (Inr (), h1)" by blast
  have m1: "map children h1 = map children h" using reset_cache_shape(1)[OF e] .
  have "list_all (subtree_ok n h1) ks"
    using ks by (simp add: list_all_iff subtree_ok_cong[OF m1])
  from "4.IH"(2)[OF e[symmetric] refl this] obtain h' where
    "reset_cache_each n ks h1 = (Inr (), h')" by blast
  then show ?case using e by simp
qed

lemma reset_cache_errors:
  "reset_cache n r (h :: ('m, 'b, 'p) heap) = (Inl e, h') \<Longrightarrow> e = RecursionError \<or> e = InvalidReference"
  "reset_cache_each n ks (h :: ('m, 'b, 'p) heap) = (Inl e, h') \<Longrightarrow> e = RecursionError \<or> e = InvalidReference"
proof (induction n r h and n ks h arbitrary: e h' and e h' rule: reset_cache_reset_cache_each.induct)
  case (1 self h)
  then show ?case by simp
next
  case (2 n self h)
  show ?case
  proof (cases "self < length h")
    case False
    with "2.prems" show ?thesis by simp
  next
    case True
    define h1 where "h1 = update self clear_caches h"
    obtain r2 h2 where e2: "reset_cache_each n (children (h1 ! self)) h1 = (r2, h2)"
      by (cases "reset_cache_each n (children (h1 ! self)) h1") blast
    have unf: "reset_cache (Suc n) self h =
      (case r2 of Inl e \<Rightarrow> (Inl e, h2) | Inr u \<Rightarrow> (Inr (), update self clear_subclass_caches h2))"
      using True e2 unfolding h1_def by (simp add: Let_def split: sum.splits)
    from "2.prems" have "r2 = Inl e" unfolding unf by (cases r2) simp_all
    with e2 have "reset_cache_each n (children (h1 ! self)) h1 = (Inl e, h2)" by simp
    from "2.IH"[OF True h1_def this] show ?thesis .
  qed
next
  case (3 n h)
  then show ?case by simp
next
  case (4 n k ks h)
  obtain r1 h1 where e1: "reset_cache n k h = (r1, h1)"
    by (cases "reset_cache n k h") blast
  show ?case
  proof (cases r1)
    case (Inl e0)
    with "4.prems" e1 have "e0 = e" by simp
    with e1 Inl have "reset_cache n k h = (Inl e, h1)" by simp
    from "4.IH"(1)[OF this] show ?thesis .
  next
    case (Inr u1)
    with "4.prems" e1 have "reset_cache_each n ks h1 = (Inl e, h')" by simp
    from "4.IH"(2)[OF _ refl this] e1 Inr show ?thesis by simp
  qed
qed

lemma subtree_ok_child:
  "subtree_ok m h p \<Longrightarrow> (p, k) \<in> child_rel h \<Longrightarrow> \<exists>m' < m. subtree_ok m' h k"
proof (cases m)
  case 0
  assume "subtree_ok m h p" with 0 show ?thesis by simp
next
  case (Suc m0)
  assume a: "subtree_ok m h p" and b: "(p, k) \<in> child_rel h"
  from a Suc have "list_all (subtree_ok m0 h) (children (h ! p))" by simp
  moreover from b have "k \<in> set (children (h ! p))" by (simp add: child_rel_def)
  ultimately have "subtree_ok m0 h k" by (simp add: list_all_iff)
  then show ?thesis using Suc by blast
qed

lemma subtree_ok_trancl:
  "(p, k) \<in> (child_rel h)\<^sup>+ \<Longrightarrow> subtree_ok m h p \<Longrightarrow> \<exists>m' < m. subtree_ok m' h k"
proof (induction arbitrary: m rule: trancl_induct)
  case (base y)
  then show ?case using subtree_ok_child by blast
next
  case (step y z)
  from step.IH[OF step.prems] obtain m1 where m1: "m1 < m" "subtree_ok m1 h y" by blast
  from subtree_ok_child[OF m1(2) step.hyps(2)] obtain m2 where "m2 < m1" "subtree_ok m2 h z" by blast
  then show ?case using m1(1) by (meson less_trans)
qed

lemma subtree_ok_no_cycle: "subtree_ok m h a \<Longrightarrow> (a, a) \<notin> (child_rel h)\<^sup>+"
proof (induction m rule: less_induct)
  case (less m)
  show ?case
  proof
    assume c: "(a, a) \<in> (child_rel h)\<^sup>+"
    from subtree_ok_trancl[OF c less.prems] obtain m' where "m' < m" "subtree_ok m' h a" by blast
    from less.IH[OF this] c show False by blast
  qed
qed

lemma ancestor_not_descendant:
  assumes "subtree_ok m h a" and "descendant h a r" and "a \<noteq> r"
  shows "\<not> descendant h r a"
proof
  assume d: "descendant h r a"
  from assms(2,3) have "(a, r) \<in> (child_rel h)\<^sup>+"
    unfolding descendant_def by (meson rtranclD)
  moreover from d have "(r, a) \<in> (child_rel h)\<^sup>*" by (simp add: descendant_def)
  ultimately have "(a, a) \<in> (child_rel h)\<^sup>+" by (rule trancl_rtrancl_trancl)
  with subtree_ok_no_cycle[OF assms(1)] show False by blast
qed

lemma subtree_ok_descendant:
  "descendant h r d \<Longrightarrow> subtree_ok m h r \<Longrightarrow> \<exists>m'. subtree_ok m' h d"
  unfolding descendant_def
proof (induction rule: rtrancl_induct)
  case base
  then show ?case by blast
next
  case (step y z)
  then obtain m1 where "subtree_ok m1 h y" by blast
  from subtree_ok_child[OF this step.hyps(2)] show ?case by blast
qed

lemma subtree_ok_valid: "subtree_ok m h r \<Longrightarrow> r < length h"
  by (cases m) simp_all

lemma descendant_valid:
  "descendant h r d \<Longrightarrow> subtree_ok m h r \<Longrightarrow> d < length h"
  using subtree_ok_descendant subtree_ok_valid by blast


lemma local_changed_refl: "local_changed self h h"
proof -
  have "h ! self = (h ! self)\<lparr>c_local_transform := c_local_transform (h ! self)\<rparr>" by simp
  then show ?thesis unfolding local_changed_def by blast
qed

lemma local_changed_transform_local:
  assumes "local_changed self h h0"
  shows "local_changed self h (transform_local K m self h0)"
proof -
  from assms obtain m0 where l: "length h0 = length h"
    and o: "\<forall>x < length h. x \<noteq> self \<longrightarrow> h0 ! x = h ! x"
    and s: "h0 ! self = (h ! self)\<lparr>c_local_transform := m0\<rparr>"
    unfolding local_changed_def by blast
  let ?h1 = "transform_local K m self h0"
  have l1: "length ?h1 = length h" using l by (simp add: transform_local_def)
  have o1: "\<forall>x < length h. x \<noteq> self \<longrightarrow> ?h1 ! x = h ! x"
    using o by (simp add: transform_local_def nth_update)
  have s1: "\<exists>m1. ?h1 ! self = (h ! self)\<lparr>c_local_transform := m1\<rparr>"
  proof (cases "self < length h0")
    case True
    then have "?h1 ! self = (h ! self)\<lparr>c_local_transform := k_transformBy K m0 m\<rparr>"
      using s by (simp add: transform_local_def nth_update)
    then show ?thesis by blast
  next
    case False
    then have "?h1 ! self = h0 ! self" by (simp add: transform_local_def nth_update)
    then have "?h1 ! self = (h ! self)\<lparr>c_local_transform := m0\<rparr>" using s by simp
    then show ?thesis by blast
  qed
  show ?thesis unfolding local_changed_def using l1 o1 s1 by blast
qed

lemma local_changed_children:
  assumes "local_changed self h h0"
  shows "map children h0 = map children h"
proof (rule nth_equalityI)
  from assms show "length (map children h0) = length (map children h)"
    by (simp add: local_changed_def)
next
  fix i assume "i < length (map children h0)"
  then have i: "i < length h" "i < length h0" using assms by (simp_all add: local_changed_def)
  from assms obtain m0 where o: "\<forall>x < length h. x \<noteq> self \<longrightarrow> h0 ! x = h ! x"
    and s: "h0 ! self = (h ! self)\<lparr>c_local_transform := m0\<rparr>"
    unfolding local_changed_def by blast
  have "children (h0 ! i) = children (h ! i)"
  proof (cases "i = self")
    case True
    then show ?thesis using s by (simp add: children_def)
  next
    case False
    then show ?thesis using o i by simp
  qed
  then show "map children h0 ! i = map children h ! i" using i by simp
qed

lemma local_changed_if:
  "local_changed self h h0 \<Longrightarrow> local_changed self h (if P then transform_local K m self h0 else h0)"
  by (simp add: local_changed_transform_local)

lemma translate_as_reset:
  assumes "self < length h"
  shows "\<exists>h0. local_changed self h h0 \<and> translate K n self a b c h = reset_cache n self h0"
proof -
  let ?h0 = "transform_local K (k_set_translation K (k_create K) (Vector3D_create a b c)) self h"
  have "translate K n self a b c h = reset_cache n self ?h0"
    using assms by (simp add: translate_def Let_def)
  moreover have "local_changed self h ?h0"
    by (rule local_changed_transform_local[OF local_changed_refl])
  ultimately show ?thesis by blast
qed

lemma place_as_reset:
  assumes "self < length h"
  shows "\<exists>h0. local_changed self h h0 \<and> place K n self x y z h = reset_cache n self h0"
proof -
  let ?h0 = "transform_local K (k_set_translation K (k_create K)
                (Vector3D_create (vx x) (vy y) (vz z))) self h"
  have "place K n self x y z h = reset_cache n self ?h0"
    using assms by (simp add: place_def Let_def)
  moreover have "local_changed self h ?h0"
    by (rule local_changed_transform_local[OF local_changed_refl])
  ultimately show ?thesis by blast
qed

lemma rotate_as_reset:
  assumes "self < length h"
  shows "\<exists>h0. local_changed self h h0 \<and> rotate K n self a b c ctr h = reset_cache n self h0"
proof -
  let ?cp = "center_point ctr"
  let ?h1 = "if a \<noteq> 0
             then transform_local K (k_setToRotation K (k_create K) (radians a) pos_x ?cp) self h
             else h"
  let ?h2 = "if b \<noteq> 0
             then transform_local K (k_setToRotation K (k_create K) (radians b) pos_y ?cp) self ?h1
             else ?h1"
  let ?h3 = "if c \<noteq> 0
             then transform_local K (k_setToRotation K (k_create K) (radians c) pos_z ?cp) self ?h2
             else ?h2"
  have "rotate K n self a b c ctr h = reset_cache n self ?h3"
    using assms unfolding rotate_def Let_def by (rule if_P)
  moreover have "local_changed self h ?h3"
    by (intro local_changed_if local_changed_refl)
  ultimately show ?thesis by blast
qed

lemma scale_as_reset:
  assumes "self < length h" and "\<bar>a\<bar> = \<bar>b\<bar>" and "\<bar>b\<bar> = \<bar>c\<bar>"
  shows "\<exists>h0. local_changed self h h0 \<and> scale K n self a b c ctr h = reset_cache n self h0
     \<and> c_local_transform (h0 ! self) =
         k_transformBy K (k_transformBy K (k_transformBy K (c_local_transform (h ! self))
            (scale_translation K ctr)) (scale_matrix K a b c)) (k_invert K (scale_translation K ctr))"
proof -
  let ?h1 = "transform_local K (scale_translation K ctr) self h"
  let ?h2 = "transform_local K (scale_matrix K a b c) self ?h1"
  let ?h3 = "transform_local K (k_invert K (scale_translation K ctr)) self ?h2"
  have "scale K n self a b c ctr h = reset_cache n self ?h3"
    using assms by (simp add: scale_def Let_def)
  moreover have "local_changed self h ?h3"
    by (intro local_changed_transform_local local_changed_refl)
  moreover have "c_local_transform (?h3 ! self) =
         k_transformBy K (k_transformBy K (k_transformBy K (c_local_transform (h ! self))
            (scale_translation K ctr)) (scale_matrix K a b c)) (k_invert K (scale_translation K ctr))"
    using assms(1) by (simp add: transform_local_def nth_update)
  ultimately show ?thesis by blast
qed

lemma mutate_as_reset:
  assumes "self < length h" and "uniform m"
  shows "\<exists>h0. local_changed self h h0 \<and> mutate K n self m h = reset_cache n self h0"
proof (cases m)
  case (Translate a b c)
  then show ?thesis using translate_as_reset[OF assms(1)] by simp
next
  case (Tx a)
  then show ?thesis using translate_as_reset[OF assms(1)] by (simp add: tx_def)
next
  case (Ty a)
  then show ?thesis using translate_as_reset[OF assms(1)] by (simp add: ty_def)
next
  case (Tz a)
  then show ?thesis using translate_as_reset[OF assms(1)] by (simp add: tz_def)
next
  case (Rotate a b c ctr)
  then show ?thesis using rotate_as_reset[OF assms(1)] by simp
next
  case (Rx a ctr)
  then show ?thesis using rotate_as_reset[OF assms(1)] by (simp add: rx_def)
next
  case (Ry a ctr)
  then show ?thesis using rotate_as_reset[OF assms(1)] by (simp add: ry_def)
next
  case (Rz a ctr)
  then show ?thesis using rotate_as_reset[OF assms(1)] by (simp add: rz_def)
next
  case (Scale a b c ctr)
  then have "\<bar>a\<bar> = \<bar>b\<bar>" "\<bar>b\<bar> = \<bar>c\<bar>" using assms(2) by simp_all
  from scale_as_reset[OF assms(1) this, of K n ctr] obtain h0 where
    "local_changed self h h0" "scale K n self a b c ctr h = reset_cache n self h0" by blast
  then show ?thesis using Scale by auto
next
  case (Place x y z)
  then show ?thesis using place_as_reset[OF assms(1)] by simp
qed

lemma reset_node_caches:
  "c_cached_world_transform (reset_node c) = None \<and> c_cached_bounding_box (reset_node c) = None
   \<and> c_cached_bodies (reset_node c) = None"
  by (simp add: reset_node_def clear_caches_def clear_subclass_caches_def)

lemma reset_after_local_change:
  assumes lc: "local_changed self h h0" and ok: "subtree_ok n h self"
  shows "\<exists>h'. reset_cache n self h0 = (Inr (), h') \<and> length h' = length h
     \<and> (\<forall>d. descendant h self d \<longrightarrow> h' ! d = reset_node (h0 ! d))
     \<and> (\<forall>a < length h. \<not> descendant h self a \<longrightarrow> h' ! a = h ! a)"
proof -
  have m: "map children h0 = map children h" by (rule local_changed_children[OF lc])
  have l: "length h0 = length h" using lc by (simp add: local_changed_def)
  have "subtree_ok n h0 self" using ok by (simp add: subtree_ok_cong[OF m])
  from reset_cache_total(1)[OF this] obtain h' where r: "reset_cache n self h0 = (Inr (), h')"
    by blast
  have dc: "descendant h0 = descendant h" by (rule descendant_cong[OF m])
  have ex: "\<forall>x < length h. h' ! x = (if descendant h self x then reset_node (h0 ! x) else h0 ! x)"
    using reset_cache_exact(1)[OF r] l unfolding dc by simp
  have l': "length h' = length h" using reset_cache_length[OF r] l by simp
  have d: "\<forall>d. descendant h self d \<longrightarrow> h' ! d = reset_node (h0 ! d)"
  proof (intro allI impI)
    fix d assume dd: "descendant h self d"
    then have "d < length h" using descendant_valid[OF dd ok] by simp
    then show "h' ! d = reset_node (h0 ! d)" using ex dd by simp
  qed
  have a: "\<forall>a < length h. \<not> descendant h self a \<longrightarrow> h' ! a = h ! a"
  proof (intro allI impI)
    fix a assume al: "a < length h" and nd: "\<not> descendant h self a"
    then have "a \<noteq> self" by auto
    then have "h0 ! a = h ! a" using lc al by (simp add: local_changed_def)
    then show "h' ! a = h ! a" using ex al nd by simp
  qed
  from r l' d a show ?thesis by blast
qed

text \<open>
  C3. Every transform mutator (translate, tx, ty, tz, rotate, rx, ry, rz, place, and scale
  with factors of equal magnitude) returns after clearing the cached world transform, the
  cached bounding box and the cached body list of the node and of every descendant of
  the node; every ancestor of the node, and every other node that is not a descendant,
  is left as it was, caches included.
\<close>

theorem mutation_clears_subtree:
  assumes "subtree_ok n h self" and "uniform m"
  shows "\<exists>h'. mutate K n self m h = (Inr (), h') \<and> length h' = length h
     \<and> (\<forall>d. descendant h self d \<longrightarrow>
           c_cached_world_transform (h' ! d) = None \<and> c_cached_bounding_box (h' ! d) = None
           \<and> c_cached_bodies (h' ! d) = None)
     \<and> (\<forall>a k. a \<noteq> self \<and> descendant h a self \<and> subtree_ok k h a \<longrightarrow> h' ! a = h ! a)
     \<and> (\<forall>a < length h. \<not> descendant h self a \<longrightarrow> h' ! a = h ! a)"
proof -
  have v: "self < length h" by (rule subtree_ok_valid[OF assms(1)])
  from mutate_as_reset[OF v assms(2)] obtain h0 where lc: "local_changed self h h0"
    and mu: "mutate K n self m h = reset_cache n self h0" by blast
  from reset_after_local_change[OF lc assms(1)] obtain h' where
    r: "reset_cache n self h0 = (Inr (), h')" and l: "length h' = length h"
    and d: "\<forall>d. descendant h self d \<longrightarrow> h' ! d = reset_node (h0 ! d)"
    and a: "\<forall>a < length h. \<not> descendant h self a \<longrightarrow> h' ! a = h ! a" by blast
  have d': "\<forall>d. descendant h self d \<longrightarrow>
           c_cached_world_transform (h' ! d) = None \<and> c_cached_bounding_box (h' ! d) = None
           \<and> c_cached_bodies (h' ! d) = None"
    using d reset_node_caches by metis
  have anc: "\<forall>a k. a \<noteq> self \<and> descendant h a self \<and> subtree_ok k h a \<longrightarrow> h' ! a = h ! a"
  proof (intro allI impI)
    fix a k assume h: "a \<noteq> self \<and> descendant h a self \<and> subtree_ok k h a"
    then have "\<not> descendant h self a" using ancestor_not_descendant by blast
    moreover have "a < length h" using h subtree_ok_valid by blast
    ultimately show "h' ! a = h ! a" using a by blast
  qed
  from mu r l d' anc a show ?thesis by simp
qed


theorem mutation_clears_subtree_witness:
  "subtree_ok 2 tree3 1 \<and> uniform (Tx 2)
   \<and> (\<exists>h'. mutate K0 2 1 (Tx 2) tree3 = (Inr (), h')
        \<and> c_cached_world_transform (h' ! 1) = None \<and> c_cached_bodies (h' ! 1) = None
        \<and> c_cached_bounding_box (h' ! 1) = None
        \<and> c_cached_world_transform (h' ! 0) = None \<and> c_cached_bodies (h' ! 0) = None
        \<and> c_cached_bounding_box (h' ! 0) = None
        \<and> h' ! 2 = tree3 ! 2)"
proof -
  have ok: "subtree_ok 2 tree3 1"
    by (simp add: eval_nat_numeral tree3_def children_def is_composite_def Component_init_def)
  have ok2: "subtree_ok 3 tree3 2"
    by (simp add: eval_nat_numeral tree3_def children_def is_composite_def Component_init_def)
  have u: "uniform (Tx 2)" by simp
  have d0: "descendant tree3 1 0"
    by (rule descendant_step[of 1 tree3 0])
       (simp_all add: tree3_def children_def is_composite_def Component_init_def)
  have d1: "descendant tree3 2 1"
    by (rule descendant_step[of 2 tree3 1])
       (simp_all add: tree3_def children_def is_composite_def Component_init_def)
  from mutation_clears_subtree[OF ok u, of K0] obtain h' where
    r: "mutate K0 2 1 (Tx 2) tree3 = (Inr (), h')"
    and d: "\<forall>d. descendant tree3 1 d \<longrightarrow>
           c_cached_world_transform (h' ! d) = None \<and> c_cached_bounding_box (h' ! d) = None
           \<and> c_cached_bodies (h' ! d) = None"
    and a: "\<forall>a k. a \<noteq> 1 \<and> descendant tree3 a 1 \<and> subtree_ok k tree3 a \<longrightarrow> h' ! a = tree3 ! a"
    by blast
  have ne: "(2::nat) \<noteq> 1" by simp
  have "h' ! 2 = tree3 ! 2" using a[rule_format, of 2 3] ne d1 ok2 by blast
  moreover have "c_cached_world_transform (h' ! 1) = None \<and> c_cached_bounding_box (h' ! 1) = None
           \<and> c_cached_bodies (h' ! 1) = None" using d[rule_format, of 1] by simp
  moreover have "c_cached_world_transform (h' ! 0) = None \<and> c_cached_bounding_box (h' ! 0) = None
           \<and> c_cached_bodies (h' ! 0) = None" using d[rule_format, of 0] d0 by simp
  ultimately show ?thesis using r ok u by blast
qed


section \<open>Scaling\<close>

lemma local_reset_node [simp]: "c_local_transform (reset_node c) = c_local_transform c"
  by (simp add: reset_node_def clear_caches_def clear_subclass_caches_def)

lemma neg_neg_vector: "neg_vector (neg_vector (asVector p)) = asVector p"
  by (simp add: neg_vector_def asVector_def Vector3D_create_def)

text \<open>
  C7. On a node of the store, \<^verbatim>\<open>scale(sx, sy, sz, center)\<close> raises the ValueError for
  non-uniform scaling exactly when the magnitudes of sx, sy and sz are not all equal, and
  then the store is the one before the call (no transform and no cache has changed).
  When the magnitudes are equal and the recursion depth covers the subtree, the call
  returns; the new local transform is the old one, then the inverse of the translation
  by the center, then the diagonal scale matrix, then the inverse of that inverse, which
  is translate(-center), scale, translate(+center) for a kernel that inverts a
  translation by negating its vector; the caches of the node and of its descendants are
  cleared.
\<close>

theorem scale_raises_iff_not_uniform:
  assumes "self < length h"
  shows "(\<bar>sx\<bar> \<noteq> \<bar>sy\<bar> \<or> \<bar>sy\<bar> \<noteq> \<bar>sz\<bar> \<longrightarrow>
            scale K n self sx sy sz ctr h
              = (Inl (ValueError ''Non-uniform scaling is not currently supported''), h))
       \<and> (\<bar>sx\<bar> = \<bar>sy\<bar> \<and> \<bar>sy\<bar> = \<bar>sz\<bar> \<longrightarrow>
            (\<forall>msg h'. scale K n self sx sy sz ctr h \<noteq> (Inl (ValueError msg), h'))
          \<and> (subtree_ok n h self \<longrightarrow>
               (\<exists>h'. scale K n self sx sy sz ctr h = (Inr (), h')
                 \<and> c_local_transform (h' ! self) =
                     k_transformBy K (k_transformBy K (k_transformBy K (c_local_transform (h ! self))
                       (k_invert K (translation_matrix K (asVector (center_point ctr)))))
                       (scale_matrix K sx sy sz))
                       (k_invert K (k_invert K (translation_matrix K (asVector (center_point ctr)))))
                 \<and> ((\<forall>v. k_invert K (translation_matrix K v) = translation_matrix K (neg_vector v)) \<longrightarrow>
                      c_local_transform (h' ! self) =
                        k_transformBy K (k_transformBy K (k_transformBy K (c_local_transform (h ! self))
                          (translation_matrix K (neg_vector (asVector (center_point ctr)))))
                          (scale_matrix K sx sy sz))
                          (translation_matrix K (asVector (center_point ctr))))
                 \<and> (\<forall>d. descendant h self d \<longrightarrow>
                       c_cached_world_transform (h' ! d) = None
                       \<and> c_cached_bounding_box (h' ! d) = None
                       \<and> c_cached_bodies (h' ! d) = None))))"
proof (intro conjI impI)
  assume "\<bar>sx\<bar> \<noteq> \<bar>sy\<bar> \<or> \<bar>sy\<bar> \<noteq> \<bar>sz\<bar>"
  then show "scale K n self sx sy sz ctr h
              = (Inl (ValueError ''Non-uniform scaling is not currently supported''), h)"
    using assms by (simp add: scale_def)
next
  assume u: "\<bar>sx\<bar> = \<bar>sy\<bar> \<and> \<bar>sy\<bar> = \<bar>sz\<bar>"
  from scale_as_reset[OF assms, of sx sy sz K n ctr] u obtain h0 where
    sc: "scale K n self sx sy sz ctr h = reset_cache n self h0" by blast
  show "\<forall>msg h'. scale K n self sx sy sz ctr h \<noteq> (Inl (ValueError msg), h')"
  proof (intro allI notI)
    fix msg h' assume "scale K n self sx sy sz ctr h = (Inl (ValueError msg), h')"
    then have "reset_cache n self h0 = (Inl (ValueError msg), h')" using sc by simp
    from reset_cache_errors(1)[OF this] show False by simp
  qed
next
  assume u: "\<bar>sx\<bar> = \<bar>sy\<bar> \<and> \<bar>sy\<bar> = \<bar>sz\<bar>" and ok: "subtree_ok n h self"
  from scale_as_reset[OF assms, of sx sy sz K n ctr] u obtain h0 where
    lc: "local_changed self h h0"
    and sc: "scale K n self sx sy sz ctr h = reset_cache n self h0"
    and lt: "c_local_transform (h0 ! self) =
         k_transformBy K (k_transformBy K (k_transformBy K (c_local_transform (h ! self))
            (scale_translation K ctr)) (scale_matrix K sx sy sz)) (k_invert K (scale_translation K ctr))"
    by blast
  from reset_after_local_change[OF lc ok] obtain h' where
    r: "reset_cache n self h0 = (Inr (), h')"
    and d: "\<forall>d. descendant h self d \<longrightarrow> h' ! d = reset_node (h0 ! d)" by blast
  have self': "h' ! self = reset_node (h0 ! self)" using d by simp
  have st: "scale_translation K ctr = k_invert K (translation_matrix K (asVector (center_point ctr)))"
    by (simp add: scale_translation_def translation_matrix_def)
  have l1: "c_local_transform (h' ! self) =
                     k_transformBy K (k_transformBy K (k_transformBy K (c_local_transform (h ! self))
                       (k_invert K (translation_matrix K (asVector (center_point ctr)))))
                       (scale_matrix K sx sy sz))
                       (k_invert K (k_invert K (translation_matrix K (asVector (center_point ctr)))))"
    using lt unfolding self' st by simp
  have l2: "(\<forall>v. k_invert K (translation_matrix K v) = translation_matrix K (neg_vector v)) \<longrightarrow>
                      c_local_transform (h' ! self) =
                        k_transformBy K (k_transformBy K (k_transformBy K (c_local_transform (h ! self))
                          (translation_matrix K (neg_vector (asVector (center_point ctr)))))
                          (scale_matrix K sx sy sz))
                          (translation_matrix K (asVector (center_point ctr)))"
  proof
    assume i: "\<forall>v. k_invert K (translation_matrix K v) = translation_matrix K (neg_vector v)"
    show "c_local_transform (h' ! self) =
                        k_transformBy K (k_transformBy K (k_transformBy K (c_local_transform (h ! self))
                          (translation_matrix K (neg_vector (asVector (center_point ctr)))))
                          (scale_matrix K sx sy sz))
                          (translation_matrix K (asVector (center_point ctr)))"
      unfolding l1 by (simp add: i neg_neg_vector)
  qed
  have l3: "\<forall>d. descendant h self d \<longrightarrow>
                       c_cached_world_transform (h' ! d) = None
                       \<and> c_cached_bounding_box (h' ! d) = None
                       \<and> c_cached_bodies (h' ! d) = None"
    using d reset_node_caches by metis
  show "\<exists>h'. scale K n self sx sy sz ctr h = (Inr (), h')
                 \<and> c_local_transform (h' ! self) =
                     k_transformBy K (k_transformBy K (k_transformBy K (c_local_transform (h ! self))
                       (k_invert K (translation_matrix K (asVector (center_point ctr)))))
                       (scale_matrix K sx sy sz))
                       (k_invert K (k_invert K (translation_matrix K (asVector (center_point ctr)))))
                 \<and> ((\<forall>v. k_invert K (translation_matrix K v) = translation_matrix K (neg_vector v)) \<longrightarrow>
                      c_local_transform (h' ! self) =
                        k_transformBy K (k_transformBy K (k_transformBy K (c_local_transform (h ! self))
                          (translation_matrix K (neg_vector (asVector (center_point ctr)))))
                          (scale_matrix K sx sy sz))
                          (translation_matrix K (asVector (center_point ctr))))
                 \<and> (\<forall>d. descendant h self d \<longrightarrow>
                       c_cached_world_transform (h' ! d) = None
                       \<and> c_cached_bounding_box (h' ! d) = None
                       \<and> c_cached_bodies (h' ! d) = None)"
    using sc r l1 l2 l3 by auto
qed

lemma K0_inverts_translations:
  "\<forall>v. k_invert K0 (translation_matrix K0 v) = translation_matrix K0 (neg_vector v)"
  by (simp add: K0_def translation_matrix_def neg_vector_def Vector3D_create_def)

theorem scale_raises_iff_not_uniform_witness:
  "(1::nat) < length tree3 \<and> subtree_ok 2 tree3 1
   \<and> (\<forall>v. k_invert K0 (translation_matrix K0 v) = translation_matrix K0 (neg_vector v))
   \<and> scale K0 2 1 2 3 1 CenterNone tree3
        = (Inl (ValueError ''Non-uniform scaling is not currently supported''), tree3)
   \<and> (\<exists>h'. scale K0 2 1 2 (- 2) 2 (CenterSeq [1]) tree3 = (Inr (), h')
         \<and> c_local_transform (h' ! 1) = (2, - 1)
         \<and> c_cached_world_transform (h' ! 0) = None)"
proof -
  have v: "(1::nat) < length tree3" by (simp add: tree3_def)
  have ok: "subtree_ok 2 tree3 1"
    by (simp add: eval_nat_numeral tree3_def children_def is_composite_def Component_init_def)
  have d0: "descendant tree3 1 0"
    by (rule descendant_step[of 1 tree3 0])
       (simp_all add: tree3_def children_def is_composite_def Component_init_def)
  have e: "scale K0 2 1 2 3 1 CenterNone tree3
        = (Inl (ValueError ''Non-uniform scaling is not currently supported''), tree3)"
    using scale_raises_iff_not_uniform[OF v, of 2 3 1 K0 2 CenterNone] by simp
  from scale_raises_iff_not_uniform[OF v, of 2 "- 2" 2 K0 2 "CenterSeq [1]"] ok K0_inverts_translations
  obtain h' where r: "scale K0 2 1 2 (- 2) 2 (CenterSeq [1]) tree3 = (Inr (), h')"
    and l: "c_local_transform (h' ! 1) =
                        k_transformBy K0 (k_transformBy K0 (k_transformBy K0 (c_local_transform (tree3 ! 1))
                          (translation_matrix K0 (neg_vector (asVector (center_point (CenterSeq [1]))))))
                          (scale_matrix K0 2 (- 2) 2))
                          (translation_matrix K0 (asVector (center_point (CenterSeq [1]))))"
    and d: "\<forall>d. descendant tree3 1 d \<longrightarrow>
                       c_cached_world_transform (h' ! d) = None
                       \<and> c_cached_bounding_box (h' ! d) = None
                       \<and> c_cached_bodies (h' ! d) = None"
    by auto
  have "c_local_transform (h' ! 1) = (2, - 1)"
    unfolding l by (simp add: K0_def translation_matrix_def neg_vector_def asVector_def
        center_point_def Point3D_create_def Vector3D_create_def scale_matrix_def affine_then_def
        tree3_def Component_init_def Let_def)
  moreover have "c_cached_world_transform (h' ! 0) = None" using d d0 by blast
  ultimately show ?thesis using v ok K0_inverts_translations e r by blast
qed


section \<open>The world transform\<close>

lemma world_Suc: "world K n h r = Some w \<Longrightarrow> world K (Suc n) h r = Some w"
proof (induction n arbitrary: r w)
  case 0
  then show ?case by simp
next
  case (Suc n)
  show ?case
  proof (cases "c_parent (h ! r)")
    case None
    with Suc.prems show ?thesis by (simp split: if_splits)
  next
    case (Some p)
    with Suc.prems obtain wp where r: "r < length h" and wp: "world K n h p = Some wp"
      and w: "w = k_transformBy K (c_local_transform (h ! r)) wp"
      by (auto split: if_splits)
    from Suc.IH[OF wp] have "world K (Suc n) h p = Some wp" .
    then show ?thesis using Some r w by simp
  qed
qed

lemma world_le: "n \<le> m \<Longrightarrow> world K n h r = Some w \<Longrightarrow> world K m h r = Some w"
proof (induction m)
  case 0
  then show ?case by simp
next
  case (Suc m)
  show ?case
  proof (cases "n = Suc m")
    case True
    with Suc.prems show ?thesis by simp
  next
    case False
    with Suc.prems have "n \<le> m" by simp
    from world_Suc[OF Suc.IH[OF this Suc.prems(2)]] show ?thesis .
  qed
qed

lemma world_fun: "world K n h r = Some w \<Longrightarrow> world K m h r = Some w' \<Longrightarrow> w = w'"
proof -
  assume a: "world K n h r = Some w" and b: "world K m h r = Some w'"
  have "world K (max n m) h r = Some w" by (rule world_le[OF _ a]) simp
  moreover have "world K (max n m) h r = Some w'" by (rule world_le[OF _ b]) simp
  ultimately show ?thesis by simp
qed

lemma world_cong:
  assumes "length h' = length h"
    and "\<forall>x < length h. c_parent (h' ! x) = c_parent (h ! x)
            \<and> c_local_transform (h' ! x) = c_local_transform (h ! x)"
  shows "world K n h' r = world K n h r"
proof (induction n arbitrary: r)
  case 0
  then show ?case by simp
next
  case (Suc n)
  show ?case
  proof (cases "r < length h")
    case True
    have "c_parent (h' ! r) = c_parent (h ! r)"
      "c_local_transform (h' ! r) = c_local_transform (h ! r)" using assms(2) True by simp_all
    then show ?thesis using assms(1) True Suc.IH by (simp split: option.splits)
  next
    case False
    then show ?thesis using assms by simp
  qed
qed

lemma cache_filled_refl: "cache_filled K h h"
  by (simp add: cache_filled_def)

lemma cache_filled_fields:
  assumes "cache_filled K h h'" and "x < length h"
  shows "c_parent (h' ! x) = c_parent (h ! x)"
    and "c_local_transform (h' ! x) = c_local_transform (h ! x)"
    and "children (h' ! x) = children (h ! x)"
proof -
  from assms have "h' ! x = h ! x \<or> (\<exists>v. h' ! x = (h ! x)\<lparr>c_cached_world_transform := Some v\<rparr>)"
    unfolding cache_filled_def by blast
  then show "c_parent (h' ! x) = c_parent (h ! x)"
    and "c_local_transform (h' ! x) = c_local_transform (h ! x)"
    and "children (h' ! x) = children (h ! x)"
    by (auto simp: children_def)
qed

lemma cache_filled_world:
  assumes "cache_filled K h h'"
  shows "world K n h' r = world K n h r"
proof (rule world_cong)
  from assms show "length h' = length h" by (simp add: cache_filled_def)
  show "\<forall>x < length h. c_parent (h' ! x) = c_parent (h ! x)
            \<and> c_local_transform (h' ! x) = c_local_transform (h ! x)"
    using cache_filled_fields[OF assms] by blast
qed

lemma cache_filled_cache_ok:
  assumes c: "cache_ok K h" and f: "cache_filled K h h'"
  shows "cache_ok K h'"
  unfolding cache_ok_def
proof (intro allI impI)
  fix x w assume x: "x < length h'" and w: "c_cached_world_transform (h' ! x) = Some w"
  from f x have xl: "x < length h" by (simp add: cache_filled_def)
  from f xl consider "h' ! x = h ! x"
    | v m where "h' ! x = (h ! x)\<lparr>c_cached_world_transform := Some v\<rparr>" "world K m h x = Some v"
    unfolding cache_filled_def by blast
  then have "\<exists>n. world K n h x = Some w"
  proof cases
    case 1
    then show ?thesis using c w xl unfolding cache_ok_def by simp
  next
    case 2
    then show ?thesis using w by auto
  qed
  then show "\<exists>n. world K n h' x = Some w" by (simp add: cache_filled_world[OF f])
qed

lemma cache_filled_parents_listed:
  assumes p: "parents_listed h" and f: "cache_filled K h h'"
  shows "parents_listed h'"
proof -
  have l: "length h' = length h" using f by (simp add: cache_filled_def)
  show ?thesis
    unfolding parents_listed_def l
    using p cache_filled_fields[OF f] unfolding parents_listed_def by simp
qed

lemma cache_filled_update:
  assumes f: "cache_filled K h h1" and r: "r < length h" and w: "world K m h r = Some t"
  shows "cache_filled K h (update r (\<lambda>c. c\<lparr>c_cached_world_transform := Some t\<rparr>) h1)"
proof -
  have l: "length h1 = length h" using f by (simp add: cache_filled_def)
  show ?thesis
    unfolding cache_filled_def
  proof (intro conjI allI impI)
    show "length (update r (\<lambda>c. c\<lparr>c_cached_world_transform := Some t\<rparr>) h1) = length h"
      using l by simp
  next
    fix x assume x: "x < length h"
    let ?h' = "update r (\<lambda>c. c\<lparr>c_cached_world_transform := Some t\<rparr>) h1"
    show "?h' ! x = h ! x \<or>
         (\<exists>v m. ?h' ! x = (h ! x)\<lparr>c_cached_world_transform := Some v\<rparr> \<and> world K m h x = Some v)"
    proof (cases "x = r")
      case False
      then have "?h' ! x = h1 ! x" by (simp add: nth_update)
      then show ?thesis using f x unfolding cache_filled_def by simp
    next
      case True
      from f r have "h1 ! r = h ! r \<or> (\<exists>v. h1 ! r = (h ! r)\<lparr>c_cached_world_transform := Some v\<rparr>)"
        unfolding cache_filled_def by blast
      then have "(h1 ! r)\<lparr>c_cached_world_transform := Some t\<rparr>
                  = (h ! r)\<lparr>c_cached_world_transform := Some t\<rparr>" by auto
      then have "?h' ! r = (h ! r)\<lparr>c_cached_world_transform := Some t\<rparr>"
        using r l by (simp add: nth_update)
      then show ?thesis using True w by blast
    qed
  qed
qed

lemma get_world_transform_sound:
  "cache_ok K h \<Longrightarrow> get_world_transform K n r h = (Inr w, h')
     \<Longrightarrow> (\<exists>m. world K m h r = Some w) \<and> cache_filled K h h'"
proof (induction n arbitrary: r w h')
  case 0
  then show ?case by simp
next
  case (Suc n)
  have r: "r < length h"
  proof (rule ccontr)
    assume "\<not> r < length h"
    with Suc.prems(2) show False by simp
  qed
  show ?case
  proof (cases "c_cached_world_transform (h ! r)")
    case (Some v)
    with Suc.prems(2) r have "w = v" "h' = h" by simp_all
    then show ?thesis using Suc.prems(1) Some r cache_filled_refl unfolding cache_ok_def by blast
  next
    case None
    note nocache = None
    show ?thesis
    proof (cases "c_parent (h ! r)")
      case None
      with Suc.prems(2) r nocache have w: "w = c_local_transform (h ! r)"
        and h': "h' = update r (\<lambda>c. c\<lparr>c_cached_world_transform := Some (c_local_transform (h ! r))\<rparr>) h"
        by (auto simp: Let_def)
      have wd: "world K (Suc 0) h r = Some w" using r None w by simp
      have "cache_filled K h h'"
        unfolding h' using cache_filled_update[OF cache_filled_refl r wd] w by simp
      then show ?thesis using wd by blast
    next
      case (Some p)
      obtain rp h1 where e: "get_world_transform K n p h = (rp, h1)"
        by (cases "get_world_transform K n p h") blast
      have unf: "get_world_transform K (Suc n) r h =
         (case rp of Inl e \<Rightarrow> (Inl e, h1)
          | Inr pw \<Rightarrow> (Inr (k_transformBy K (c_local_transform (h ! r)) pw),
               update r (\<lambda>c. c\<lparr>c_cached_world_transform :=
                   Some (k_transformBy K (c_local_transform (h ! r)) pw)\<rparr>) h1))"
        using r nocache Some e by (simp add: Let_def split: sum.splits)
      from Suc.prems(2) obtain pw where rp: "rp = Inr pw"
        and w: "w = k_transformBy K (c_local_transform (h ! r)) pw"
        and h': "h' = update r (\<lambda>c. c\<lparr>c_cached_world_transform := Some w\<rparr>) h1"
        unfolding unf by (cases rp) auto
      from Suc.IH[OF Suc.prems(1)] e rp obtain m where
        wp: "world K m h p = Some pw" and f1: "cache_filled K h h1" by blast
      have wd: "world K (Suc m) h r = Some w" using r Some wp w by simp
      have "cache_filled K h h'" unfolding h' by (rule cache_filled_update[OF f1 r wd])
      then show ?thesis using wd by blast
    qed
  qed
qed

lemma get_world_transform_total:
  "chain_ok n h r \<Longrightarrow> \<exists>w h'. get_world_transform K n r h = (Inr w, h')"
proof (induction n arbitrary: r)
  case 0
  then show ?case by simp
next
  case (Suc n)
  then have r: "r < length h" by simp
  show ?case
  proof (cases "c_cached_world_transform (h ! r)")
    case (Some v)
    then show ?thesis using r by simp
  next
    case None
    note nocache = None
    show ?thesis
    proof (cases "c_parent (h ! r)")
      case None
      then show ?thesis using r nocache by (simp add: Let_def)
    next
      case (Some p)
      with Suc.prems have "chain_ok n h p" by simp
      from Suc.IH[OF this] obtain pw h1 where "get_world_transform K n p h = (Inr pw, h1)" by blast
      then show ?thesis using r nocache Some by (simp add: Let_def)
    qed
  qed
qed

lemma descendant_child:
  "descendant h r p \<Longrightarrow> p < length h \<Longrightarrow> k \<in> set (children (h ! p)) \<Longrightarrow> descendant h r k"
  unfolding descendant_def
  by (rule rtrancl_into_rtrancl[of r p]) (simp_all add: child_rel_def)

lemma world_frame:
  assumes pl: "parents_listed h" and l: "length h' = length h"
    and eq: "\<forall>y < length h. \<not> descendant h self y \<longrightarrow> h' ! y = h ! y"
  shows "\<not> descendant h self x \<Longrightarrow> world K n h' x = world K n h x"
proof (induction n arbitrary: x)
  case 0
  then show ?case by simp
next
  case (Suc n)
  show ?case
  proof (cases "x < length h")
    case False
    then show ?thesis using l by simp
  next
    case True
    then have same: "h' ! x = h ! x" using eq Suc.prems by simp
    show ?thesis
    proof (cases "c_parent (h ! x)")
      case None
      then show ?thesis using True l same by simp
    next
      case (Some p)
      have "\<not> descendant h self p"
      proof
        assume d: "descendant h self p"
        from pl True Some have "p < length h" "x \<in> set (children (h ! p))"
          unfolding parents_listed_def by blast+
        from descendant_child[OF d this] Suc.prems show False by simp
      qed
      from Suc.IH[OF this] show ?thesis using True l same Some by simp
    qed
  qed
qed

lemma parent_reset_node [simp]: "c_parent (reset_node c) = c_parent c"
  by (simp add: reset_node_def clear_caches_def clear_subclass_caches_def)

lemma cache_reset_node [simp]: "c_cached_world_transform (reset_node c) = None"
  by (simp add: reset_node_def clear_caches_def clear_subclass_caches_def)

lemma reset_preserves_tree_ok:
  assumes inv: "tree_ok K h" and lc: "local_changed self h h0"
    and r: "reset_cache n self h0 = (Inr (), h')"
  shows "tree_ok K h'"
proof -
  have pl: "parents_listed h" and co: "cache_ok K h" using inv by (simp_all add: tree_ok_def)
  have m: "map children h0 = map children h" by (rule local_changed_children[OF lc])
  have l0: "length h0 = length h" using lc by (simp add: local_changed_def)
  have dc: "descendant h0 = descendant h" by (rule descendant_cong[OF m])
  have l': "length h' = length h" using reset_cache_length[OF r] l0 by simp
  have ex: "\<forall>x < length h. h' ! x = (if descendant h self x then reset_node (h0 ! x) else h0 ! x)"
    using reset_cache_exact(1)[OF r] l0 unfolding dc by simp
  from lc obtain m0 where oth: "\<forall>x < length h. x \<noteq> self \<longrightarrow> h0 ! x = h ! x"
    and slf: "h0 ! self = (h ! self)\<lparr>c_local_transform := m0\<rparr>"
    unfolding local_changed_def by blast
  have f0: "\<forall>x < length h. c_parent (h0 ! x) = c_parent (h ! x) \<and> children (h0 ! x) = children (h ! x)"
  proof (intro allI impI)
    fix x assume x: "x < length h"
    show "c_parent (h0 ! x) = c_parent (h ! x) \<and> children (h0 ! x) = children (h ! x)"
    proof (cases "x = self")
      case True
      then show ?thesis using slf by (simp add: children_def)
    next
      case False
      then show ?thesis using oth x by simp
    qed
  qed
  have f: "\<forall>x < length h. c_parent (h' ! x) = c_parent (h ! x) \<and> children (h' ! x) = children (h ! x)"
  proof (intro allI impI)
    fix x assume x: "x < length h"
    have "h' ! x = reset_node (h0 ! x) \<or> h' ! x = h0 ! x" using ex x by simp
    then have "c_parent (h' ! x) = c_parent (h0 ! x) \<and> children (h' ! x) = children (h0 ! x)"
      by auto
    then show "c_parent (h' ! x) = c_parent (h ! x) \<and> children (h' ! x) = children (h ! x)"
      using f0 x by simp
  qed
  have pl': "parents_listed h'"
    unfolding parents_listed_def l'
  proof (intro allI impI)
    fix x p assume x: "x < length h" and p: "c_parent (h' ! x) = Some p"
    then have "c_parent (h ! x) = Some p" using f by simp
    with pl x have pp: "p < length h" "x \<in> set (children (h ! p))"
      unfolding parents_listed_def by blast+
    then show "p < length h \<and> x \<in> set (children (h' ! p))" using f by simp
  qed
  have eq: "\<forall>y < length h. \<not> descendant h self y \<longrightarrow> h' ! y = h ! y"
  proof (intro allI impI)
    fix y assume y: "y < length h" and nd: "\<not> descendant h self y"
    then have "y \<noteq> self" by auto
    then show "h' ! y = h ! y" using ex oth y nd by simp
  qed
  have co': "cache_ok K h'"
    unfolding cache_ok_def l'
  proof (intro allI impI)
    fix x w assume x: "x < length h" and w: "c_cached_world_transform (h' ! x) = Some w"
    have nd: "\<not> descendant h self x"
    proof
      assume "descendant h self x"
      then have "h' ! x = reset_node (h0 ! x)" using ex x by simp
      with w show False by simp
    qed
    then have "h' ! x = h ! x" using eq x by simp
    with w co x obtain k where "world K k h x = Some w" unfolding cache_ok_def by auto
    then have "world K k h' x = Some w" using world_frame[OF pl l' eq nd] by simp
    then show "\<exists>n. world K n h' x = Some w" by blast
  qed
  show ?thesis using pl' co' by (simp add: tree_ok_def)
qed

lemma mutate_not_uniform:
  assumes "\<not> uniform m"
  shows "\<exists>e h'. mutate K n self m h = (Inl e, h')"
proof -
  from assms obtain a b c ctr where m: "m = Scale a b c ctr" and "\<bar>a\<bar> \<noteq> \<bar>b\<bar> \<or> \<bar>b\<bar> \<noteq> \<bar>c\<bar>"
    by (cases m) auto
  then show ?thesis by (auto simp: scale_def)
qed

lemma reset_cache_valid: "reset_cache n self h = (Inr u, h') \<Longrightarrow> self < length h"
  by (cases n) (auto split: if_splits)

lemma mutate_valid: "mutate K n self m h = (Inr u, h') \<Longrightarrow> self < length h"
  by (cases m) (auto simp: translate_def tx_def ty_def tz_def rotate_def rx_def ry_def rz_def
      scale_def place_def split: if_splits)

lemma step_preserves_tree_ok:
  assumes inv: "tree_ok K h" and s: "step K n a h = (Inr (), h')"
  shows "tree_ok K h'"
proof (cases a)
  case (Mutate r m)
  with s have mu: "mutate K n r m h = (Inr (), h')" by simp
  have u: "uniform m"
  proof (rule ccontr)
    assume "\<not> uniform m"
    from mutate_not_uniform[OF this, of K n r h] mu show False by auto
  qed
  from mutate_as_reset[OF mutate_valid[OF mu] u, of K n] obtain h0 where
    "local_changed r h h0" "mutate K n r m h = reset_cache n r h0" by blast
  with mu reset_preserves_tree_ok[OF inv] show ?thesis by simp
next
  case (Invalidate r)
  with s have "reset_cache n r h = (Inr (), h')" by simp
  from reset_preserves_tree_ok[OF inv local_changed_refl this] show ?thesis .
next
  case (Query r)
  obtain res h1 where e: "get_world_transform K n r h = (res, h1)"
    by (cases "get_world_transform K n r h") blast
  with s Query obtain w where "res = Inr w" "h1 = h'" by (cases res) auto
  with e have "get_world_transform K n r h = (Inr w, h')" by simp
  from get_world_transform_sound[OF _ this] inv have "cache_filled K h h'"
    by (simp add: tree_ok_def)
  then show ?thesis
    using inv cache_filled_cache_ok cache_filled_parents_listed unfolding tree_ok_def by blast
qed

lemma run_preserves_tree_ok:
  "tree_ok K h \<Longrightarrow> run K n as h = (Inr (), h') \<Longrightarrow> tree_ok K h'"
proof (induction as arbitrary: h)
  case Nil
  then show ?case by simp
next
  case (Cons a as)
  obtain res h1 where e: "step K n a h = (res, h1)" by (cases "step K n a h") blast
  with Cons.prems(2) have res: "res = Inr ()" and rest: "run K n as h1 = (Inr (), h')"
    by (cases res; simp)+
  from step_preserves_tree_ok[OF Cons.prems(1)] e res have "tree_ok K h1" by simp
  from Cons.IH[OF this rest] show ?case .
qed

lemma chain_ok_cache_filled:
  assumes "cache_filled K h h'"
  shows "chain_ok n h' r = chain_ok n h r"
proof (induction n arbitrary: r)
  case 0
  then show ?case by simp
next
  case (Suc n)
  have l: "length h' = length h" using assms by (simp add: cache_filled_def)
  show ?case
  proof (cases "r < length h")
    case True
    have "c_parent (h' ! r) = c_parent (h ! r)" using cache_filled_fields(1)[OF assms True] .
    then show ?thesis using True l Suc.IH by (simp split: option.splits)
  next
    case False
    then show ?thesis using l by simp
  qed
qed

text \<open>
  On a well-formed forest (every node with a parent is listed by that parent, and every
  cached world transform is the one the parent chain defines) the transform mutators,
  \<^verbatim>\<open>_reset_cache\<close> and the queries keep the forest well formed, and every query
  answers with the local transform of the node transformed by the answer of its parent.
  The lemma is about stores that satisfy the invariant; the section on attachment below
  shows a store, reached through \<^verbatim>\<open>add\<close>, that does not.
\<close>

lemma world_transform_on_forest:
  assumes "tree_ok K h" and "run K n as h = (Inr (), h1)"
    and "get_world_transform K m N h1 = (Inr w, h2)"
  shows "(c_parent (h1 ! N) = None \<longrightarrow> w = c_local_transform (h1 ! N))
       \<and> (\<forall>P. c_parent (h1 ! N) = Some P \<longrightarrow>
            (\<forall>k wp h3. get_world_transform K k P h2 = (Inr wp, h3)
                \<longrightarrow> w = k_transformBy K (c_local_transform (h1 ! N)) wp)
            \<and> (\<forall>k. chain_ok k h1 P \<longrightarrow> (\<exists>wp h3. get_world_transform K k P h2 = (Inr wp, h3))))
       \<and> (\<forall>k N'. chain_ok k h1 N' \<longrightarrow> (\<exists>w' h'. get_world_transform K k N' h1 = (Inr w', h')))"
proof -
  have inv1: "tree_ok K h1" by (rule run_preserves_tree_ok[OF assms(1,2)])
  then have co1: "cache_ok K h1" by (simp add: tree_ok_def)
  from get_world_transform_sound[OF co1 assms(3)] obtain j where
    wj: "world K j h1 N = Some w" and f: "cache_filled K h1 h2" by blast
  have co2: "cache_ok K h2" by (rule cache_filled_cache_ok[OF co1 f])
  from wj obtain j0 where j: "j = Suc j0" by (cases j) simp_all
  have N: "N < length h1" using wj unfolding j by (simp split: if_splits)
  have a: "c_parent (h1 ! N) = None \<longrightarrow> w = c_local_transform (h1 ! N)"
    using wj N unfolding j by auto
  have b: "\<forall>P. c_parent (h1 ! N) = Some P \<longrightarrow>
            (\<forall>k wp h3. get_world_transform K k P h2 = (Inr wp, h3)
                \<longrightarrow> w = k_transformBy K (c_local_transform (h1 ! N)) wp)
            \<and> (\<forall>k. chain_ok k h1 P \<longrightarrow> (\<exists>wp h3. get_world_transform K k P h2 = (Inr wp, h3)))"
  proof (intro allI impI conjI)
    fix P k wp h3
    assume P: "c_parent (h1 ! N) = Some P" and q: "get_world_transform K k P h2 = (Inr wp, h3)"
    from wj N P obtain wp0 where w0: "world K j0 h1 P = Some wp0"
      and w: "w = k_transformBy K (c_local_transform (h1 ! N)) wp0"
      unfolding j by auto
    from get_world_transform_sound[OF co2 q] obtain i where "world K i h2 P = Some wp" by blast
    then have "world K i h1 P = Some wp" by (simp add: cache_filled_world[OF f])
    from world_fun[OF this w0] w show "w = k_transformBy K (c_local_transform (h1 ! N)) wp" by simp
  next
    fix P k assume "chain_ok k h1 P"
    then have "chain_ok k h2 P" by (simp add: chain_ok_cache_filled[OF f])
    from get_world_transform_total[OF this] show "\<exists>wp h3. get_world_transform K k P h2 = (Inr wp, h3)" .
  qed
  have c: "\<forall>k N'. chain_ok k h1 N' \<longrightarrow> (\<exists>w' h'. get_world_transform K k N' h1 = (Inr w', h'))"
    using get_world_transform_total by blast
  from a b c show ?thesis by blast
qed

lemmas tree3_simps = K0_def tree3_def Component_init_def tx_def translate_def transform_local_def
  update_def children_def is_composite_def clear_caches_def clear_subclass_caches_def
  Vector3D_create_def affine_then_def Let_def

lemma less3: "x < Suc (Suc (Suc 0)) \<longleftrightarrow> x = 0 \<or> x = Suc 0 \<or> x = Suc (Suc 0)"
  by auto

lemma tree3_tree_ok: "tree_ok K0 tree3"
proof -
  have l: "length tree3 = Suc (Suc (Suc 0))" by (simp add: tree3_def)
  have pl: "parents_listed tree3"
    unfolding parents_listed_def l less3
    by (auto simp: tree3_def Component_init_def children_def is_composite_def)
  have w0: "world K0 (Suc (Suc (Suc 0))) tree3 0 = Some (1, 5)"
    by (simp add: tree3_simps)
  have w1: "world K0 (Suc (Suc 0)) tree3 (Suc 0) = Some (1, 5)"
    by (simp add: tree3_simps)
  have w2: "world K0 (Suc 0) tree3 (Suc (Suc 0)) = Some (1, 5)"
    by (simp add: tree3_simps)
  have c0: "c_cached_world_transform (tree3 ! 0) = Some (1, 5)"
    and c1: "c_cached_world_transform (tree3 ! Suc 0) = Some (1, 5)"
    and c2: "c_cached_world_transform (tree3 ! Suc (Suc 0)) = Some (1, 5)"
    by (simp_all add: tree3_def)
  have co: "cache_ok K0 tree3"
    unfolding cache_ok_def l less3 using w0 w1 w2 c0 c1 c2 by (metis option.inject)
  show ?thesis using pl co by (simp add: tree_ok_def)
qed

lemma tree3_run:
  "\<exists>h1 w h2. run K0 3 [Mutate 1 (Tx 2), Query 0] tree3 = (Inr (), h1)
     \<and> get_world_transform K0 3 0 h1 = (Inr w, h2)
     \<and> c_parent (h1 ! 0) = Some 1 \<and> chain_ok 3 h1 1 \<and> w = (1, 7) \<and> c_local_transform (h1 ! 0) = (1, 0)"
  by (simp add: tree3_simps eval_nat_numeral)

lemma world_transform_on_forest_example:
  "tree_ok K0 tree3
   \<and> (\<exists>h1 w h2. run K0 3 [Mutate 1 (Tx 2), Query 0] tree3 = (Inr (), h1)
        \<and> get_world_transform K0 3 0 h1 = (Inr w, h2)
        \<and> c_parent (h1 ! 0) = Some 1 \<and> w = (1, 7)
        \<and> (\<exists>wp h3. get_world_transform K0 3 1 h2 = (Inr wp, h3)
              \<and> w = k_transformBy K0 (c_local_transform (h1 ! 0)) wp))"
proof -
  from tree3_run obtain h1 w h2 where
    r: "run K0 3 [Mutate 1 (Tx 2), Query 0] tree3 = (Inr (), h1)"
    and q: "get_world_transform K0 3 0 h1 = (Inr w, h2)"
    and p: "c_parent (h1 ! 0) = Some 1" and c: "chain_ok 3 h1 1" and w: "w = (1, 7)"
    by blast
  from world_transform_on_forest[OF tree3_tree_ok r q] p
  have e: "\<forall>k wp h3. get_world_transform K0 k 1 h2 = (Inr wp, h3)
                \<longrightarrow> w = k_transformBy K0 (c_local_transform (h1 ! 0)) wp"
    and t: "\<forall>k. chain_ok k h1 1 \<longrightarrow> (\<exists>wp h3. get_world_transform K0 k 1 h2 = (Inr wp, h3))"
    by blast+
  from t c obtain wp h3 where q1: "get_world_transform K0 3 1 h2 = (Inr wp, h3)" by blast
  with e have "w = k_transformBy K0 (c_local_transform (h1 ! 0)) wp" by blast
  with r q p w q1 tree3_tree_ok show ?thesis by blast
qed


section \<open>Union\<close>

lemma Union_check_result:
  assumes "c_body (h ! self) \<noteq> None"
    and "get_plane K n self h = (Inr plane, h1)"
    and "get_plane K n child h1 = (Inr child_plane, h2)"
  shows "Union_check_coplanarity K n self child h =
     (if planar_mix plane child_plane
      then (Inl (ValueError ''Cannot union a planar entity with a 3d entity''), h2)
      else if not_coplanar K plane child_plane
      then (Inl (ValueError ''Cannot union planar entities that are non-coplanar''), h2)
      else (Inr (), h2))"
  using assms
  by (cases plane; cases child_plane)
     (simp_all add: Union_check_coplanarity_def planar_mix_def not_coplanar_def)

lemma add_children_loop_raises:
  assumes v: "child < length h" and np: "c_parent (h ! child) = None"
    and i: "inverse_transform K n self h = (Inr im, ha)"
    and r: "reset_cache n child (reexpressed K child im ha) = (Inr (), hb)"
    and f: "f child s hb = (Inl e, hc)"
  shows "add_children K n cm self (child # rest) (Some f) s h = (Inl e, hc)"
  using assms by (simp add: add_children_def reexpressed_def Let_def)

lemma Union_add_raises:
  assumes v: "child < length h" and np: "c_parent (h ! child) = None"
    and i: "inverse_transform K n self h = (Inr im, ha)"
    and r: "reset_cache n child (reexpressed K child im ha) = (Inr (), hb)"
    and b: "c_body (hb ! self) \<noteq> None"
    and p: "get_plane K n self hb = (Inr plane, h1)"
    and cp: "get_plane K n child h1 = (Inr child_plane, h2)"
  shows "(planar_mix plane child_plane \<longrightarrow>
            Union_add K n self (child # rest) h
              = (Inl (ValueError ''Cannot union a planar entity with a 3d entity''), h2))
       \<and> (\<not> planar_mix plane child_plane \<and> not_coplanar K plane child_plane \<longrightarrow>
            Union_add K n self (child # rest) h
              = (Inl (ValueError ''Cannot union planar entities that are non-coplanar''), h2))
       \<and> (\<not> planar_mix plane child_plane \<and> \<not> not_coplanar K plane child_plane \<longrightarrow>
            Union_check_coplanarity K n self child hb = (Inr (), h2))"
proof (intro conjI impI)
  assume m: "planar_mix plane child_plane"
  have "Union_add_process_child K n self child () hb
          = (Inl (ValueError ''Cannot union a planar entity with a 3d entity''), h2)"
    using Union_check_result[OF b p cp] m by (simp add: Union_add_process_child_def)
  from add_children_loop_raises[where f = "Union_add_process_child K n self" and s = "()", OF v np i r this]
  show "Union_add K n self (child # rest) h
              = (Inl (ValueError ''Cannot union a planar entity with a 3d entity''), h2)"
    by (simp add: Union_add_def)
next
  assume m: "\<not> planar_mix plane child_plane \<and> not_coplanar K plane child_plane"
  have "Union_add_process_child K n self child () hb
          = (Inl (ValueError ''Cannot union planar entities that are non-coplanar''), h2)"
    using Union_check_result[OF b p cp] m by (simp add: Union_add_process_child_def)
  from add_children_loop_raises[where f = "Union_add_process_child K n self" and s = "()", OF v np i r this]
  show "Union_add K n self (child # rest) h
              = (Inl (ValueError ''Cannot union planar entities that are non-coplanar''), h2)"
    by (simp add: Union_add_def)
next
  assume m: "\<not> planar_mix plane child_plane \<and> \<not> not_coplanar K plane child_plane"
  then show "Union_check_coplanarity K n self child hb = (Inr (), h2)"
    using Union_check_result[OF b p cp] by simp
qed

lemmas model_simps = Rect_init_def Box_init_def Shape_init_def alloc_def Component_init_def
  Union_init_def add_children_def inverse_transform_def update_def children_def is_composite_def
  clear_caches_def clear_subclass_caches_def Union_init_process_child_def
  Union_check_coplanarity_def bodies_def raw_bodies_def brep_copy_def face_plane_def
  cached_body_def booleanOperation_def Let_def nth_append

lemma Union_Rect_Box_raises:
  assumes i: "bottom_index < length (k_faces K
                 (k_createBox K (Point3D_create (x / 2) (y / 2) (1 / 2)) pos_x pos_y x y 1))"
    and f: "k_faces K (k_transform K
               (k_faces K (k_createBox K (Point3D_create (x / 2) (y / 2) (1 / 2)) pos_x pos_y x y 1)
                  ! bottom_index)
               (k_transformBy K (k_create K) (k_invert K (k_create K)))) \<noteq> []"
  shows "\<exists>h1 h2 h3. Rect_init K x y None [] = (Inr 0, h1) \<and> Box_init K a b c None h1 = (1, h2)
      \<and> Union_init K (Suc (Suc n)) [0, 1] None h2
           = (Inl (ValueError ''Cannot union a planar entity with a 3d entity''), h3)"
proof -
  from f obtain f0 fs where fc: "k_faces K (k_transform K
               (k_faces K (k_createBox K (Point3D_create (x / 2) (y / 2) (1 / 2)) pos_x pos_y x y 1)
                  ! bottom_index)
               (k_transformBy K (k_create K) (k_invert K (k_create K)))) = f0 # fs"
    by (meson neq_Nil_conv)
  show ?thesis using i fc by (simp add: model_simps)
qed

lemma Union_Box_Rect_raises:
  assumes i: "bottom_index < length (k_faces K
                 (k_createBox K (Point3D_create (x / 2) (y / 2) (1 / 2)) pos_x pos_y x y 1))"
    and f: "k_faces K (k_transform K
               (k_faces K (k_createBox K (Point3D_create (x / 2) (y / 2) (1 / 2)) pos_x pos_y x y 1)
                  ! bottom_index)
               (k_transformBy K (k_create K) (k_invert K (k_create K)))) \<noteq> []"
  shows "\<exists>h1 h2 h3. Rect_init K x y None [] = (Inr 0, h1) \<and> Box_init K a b c None h1 = (1, h2)
      \<and> Union_init K (Suc (Suc n)) [1, 0] None h2
           = (Inl (ValueError ''Cannot union a planar entity with a 3d entity''), h3)"
proof -
  from f obtain f0 fs where fc: "k_faces K (k_transform K
               (k_faces K (k_createBox K (Point3D_create (x / 2) (y / 2) (1 / 2)) pos_x pos_y x y 1)
                  ! bottom_index)
               (k_transformBy K (k_create K) (k_invert K (k_create K)))) = f0 # fs"
    by (meson neq_Nil_conv)
  show ?thesis using i fc by (simp add: model_simps)
qed

text \<open>
  What \<^verbatim>\<open>Union._check_coplanarity\<close> does with the two planes that \<^verbatim>\<open>get_plane\<close>
  hands it: when exactly one of them is \<^verbatim>\<open>None\<close> it raises the ValueError for mixing
  a planar entity with a 3d entity, when both are planes that the kernel does not find
  coplanar it raises the ValueError for non-coplanar entities, and otherwise it returns;
  the error leaves \<^verbatim>\<open>add\<close>. For every kernel that gives the rectangle a face, the
  Union of a Rect and a Box, in either order, raises the ValueError for mixing. The planes
  are the ones the check sees: the lemma does not say in which frame each one is.
\<close>

lemma Union_check_dimensionality:
  "(c_body (h ! self) \<noteq> None \<and> get_plane K n self h = (Inr plane, h1)
      \<and> get_plane K n child h1 = (Inr child_plane, h2) \<longrightarrow>
      Union_check_coplanarity K n self child h =
        (if planar_mix plane child_plane
         then (Inl (ValueError ''Cannot union a planar entity with a 3d entity''), h2)
         else if not_coplanar K plane child_plane
         then (Inl (ValueError ''Cannot union planar entities that are non-coplanar''), h2)
         else (Inr (), h2)))
   \<and> (child < length h \<and> c_parent (h ! child) = None
      \<and> inverse_transform K n self h = (Inr im, ha)
      \<and> reset_cache n child (reexpressed K child im ha) = (Inr (), hb)
      \<and> c_body (hb ! self) \<noteq> None
      \<and> get_plane K n self hb = (Inr plane, h1)
      \<and> get_plane K n child h1 = (Inr child_plane, h2) \<longrightarrow>
        (planar_mix plane child_plane \<longrightarrow>
            Union_add K n self (child # rest) h
              = (Inl (ValueError ''Cannot union a planar entity with a 3d entity''), h2))
        \<and> (\<not> planar_mix plane child_plane \<and> not_coplanar K plane child_plane \<longrightarrow>
            Union_add K n self (child # rest) h
              = (Inl (ValueError ''Cannot union planar entities that are non-coplanar''), h2)))
   \<and> (rect_faces_ok K x y \<longrightarrow>
        (\<exists>h1 h2 h3. Rect_init K x y None [] = (Inr 0, h1) \<and> Box_init K a b c None h1 = (1, h2)
          \<and> Union_init K (Suc (Suc n)) [0, 1] None h2
               = (Inl (ValueError ''Cannot union a planar entity with a 3d entity''), h3))
        \<and> (\<exists>h1 h2 h3. Rect_init K x y None [] = (Inr 0, h1) \<and> Box_init K a b c None h1 = (1, h2)
          \<and> Union_init K (Suc (Suc n)) [1, 0] None h2
               = (Inl (ValueError ''Cannot union a planar entity with a 3d entity''), h3)))"
proof (intro conjI impI)
  assume "c_body (h ! self) \<noteq> None \<and> get_plane K n self h = (Inr plane, h1)
      \<and> get_plane K n child h1 = (Inr child_plane, h2)"
  then show "Union_check_coplanarity K n self child h =
        (if planar_mix plane child_plane
         then (Inl (ValueError ''Cannot union a planar entity with a 3d entity''), h2)
         else if not_coplanar K plane child_plane
         then (Inl (ValueError ''Cannot union planar entities that are non-coplanar''), h2)
         else (Inr (), h2))"
    using Union_check_result[of h self K n plane h1 child child_plane h2] by (elim conjE) simp
next
  assume a: "child < length h \<and> c_parent (h ! child) = None
      \<and> inverse_transform K n self h = (Inr im, ha)
      \<and> reset_cache n child (reexpressed K child im ha) = (Inr (), hb)
      \<and> c_body (hb ! self) \<noteq> None
      \<and> get_plane K n self hb = (Inr plane, h1)
      \<and> get_plane K n child h1 = (Inr child_plane, h2)"
    and m: "planar_mix plane child_plane"
  from a have "planar_mix plane child_plane \<longrightarrow>
            Union_add K n self (child # rest) h
              = (Inl (ValueError ''Cannot union a planar entity with a 3d entity''), h2)"
    using Union_add_raises[of child h K n self im ha hb plane h1 child_plane h2 rest]
    by (elim conjE) simp
  with m show "Union_add K n self (child # rest) h
              = (Inl (ValueError ''Cannot union a planar entity with a 3d entity''), h2)" by simp
next
  assume a: "child < length h \<and> c_parent (h ! child) = None
      \<and> inverse_transform K n self h = (Inr im, ha)
      \<and> reset_cache n child (reexpressed K child im ha) = (Inr (), hb)
      \<and> c_body (hb ! self) \<noteq> None
      \<and> get_plane K n self hb = (Inr plane, h1)
      \<and> get_plane K n child h1 = (Inr child_plane, h2)"
    and m: "\<not> planar_mix plane child_plane \<and> not_coplanar K plane child_plane"
  from a have "\<not> planar_mix plane child_plane \<and> not_coplanar K plane child_plane \<longrightarrow>
            Union_add K n self (child # rest) h
              = (Inl (ValueError ''Cannot union planar entities that are non-coplanar''), h2)"
    using Union_add_raises[of child h K n self im ha hb plane h1 child_plane h2 rest]
    by (elim conjE) simp
  with m show "Union_add K n self (child # rest) h
              = (Inl (ValueError ''Cannot union planar entities that are non-coplanar''), h2)" by simp
next
  assume "rect_faces_ok K x y"
  then show "\<exists>h1 h2 h3. Rect_init K x y None [] = (Inr 0, h1) \<and> Box_init K a b c None h1 = (1, h2)
          \<and> Union_init K (Suc (Suc n)) [0, 1] None h2
               = (Inl (ValueError ''Cannot union a planar entity with a 3d entity''), h3)"
    using Union_Rect_Box_raises[of K x y a b c n] by (simp add: rect_faces_ok_def Let_def)
next
  assume "rect_faces_ok K x y"
  then show "\<exists>h1 h2 h3. Rect_init K x y None [] = (Inr 0, h1) \<and> Box_init K a b c None h1 = (1, h2)
          \<and> Union_init K (Suc (Suc n)) [1, 0] None h2
               = (Inl (ValueError ''Cannot union a planar entity with a 3d entity''), h3)"
    using Union_Box_Rect_raises[of K x y a b c n] by (simp add: rect_faces_ok_def Let_def)
qed

lemmas K0_simps = K0_def affine_then_def bottom_index_def tx_def translate_def transform_local_def
  Vector3D_create_def Point3D_create_def reexpressed_def planar_mix_def not_coplanar_def
  Union_add_def Union_add_process_child_def

lemma two_rects_value:
  "map (\<lambda>c. (c_class c, c_parent c, c_local_transform c, c_body c, c_children c)) two_rects
    = [(Rect_cls, Some 3, (1, 0), Some (''face'', 1, 0), []),
       (Rect_cls, None, (1, 3), Some (''face'', 1, 0), []),
       (Box_cls, None, (1, 0), Some (''box'', 1, 0), []),
       (Union_cls, None, (1, 0), Some (''face'', 1, 0), [0])]"
  by (simp add: two_rects_def model_simps K0_simps eval_nat_numeral)

lemma two_rects_noncoplanar:
  "\<exists>im ha hb plane h1 child_plane h2.
     1 < length two_rects \<and> c_parent (two_rects ! 1) = None
     \<and> inverse_transform K0 5 3 two_rects = (Inr im, ha)
     \<and> reset_cache 5 1 (reexpressed K0 1 im ha) = (Inr (), hb)
     \<and> c_body (hb ! 3) \<noteq> None
     \<and> get_plane K0 5 3 hb = (Inr plane, h1)
     \<and> get_plane K0 5 1 h1 = (Inr child_plane, h2)
     \<and> \<not> planar_mix plane child_plane \<and> not_coplanar K0 plane child_plane"
  by (simp add: two_rects_def model_simps K0_simps eval_nat_numeral)

lemma two_rects_mix:
  "\<exists>im ha hb plane h1 child_plane h2.
     2 < length two_rects \<and> c_parent (two_rects ! 2) = None
     \<and> inverse_transform K0 5 3 two_rects = (Inr im, ha)
     \<and> reset_cache 5 2 (reexpressed K0 2 im ha) = (Inr (), hb)
     \<and> c_body (hb ! 3) \<noteq> None
     \<and> get_plane K0 5 3 hb = (Inr plane, h1)
     \<and> get_plane K0 5 2 h1 = (Inr child_plane, h2)
     \<and> planar_mix plane child_plane"
  by (simp add: two_rects_def model_simps K0_simps eval_nat_numeral)

lemma K0_rect_faces_ok: "rect_faces_ok K0 1 1"
  by (simp add: rect_faces_ok_def K0_simps Let_def)

lemma Union_check_dimensionality_example:
  "rect_faces_ok K0 1 1
   \<and> (\<exists>h3. Union_add K0 5 3 [1] two_rects
          = (Inl (ValueError ''Cannot union planar entities that are non-coplanar''), h3))
   \<and> (\<exists>h3. Union_add K0 5 3 [2] two_rects
          = (Inl (ValueError ''Cannot union a planar entity with a 3d entity''), h3))
   \<and> (\<exists>h1 h2 h3. Rect_init K0 1 1 None [] = (Inr 0, h1) \<and> Box_init K0 1 1 1 None h1 = (1, h2)
          \<and> Union_init K0 (Suc (Suc 0)) [0, 1] None h2
               = (Inl (ValueError ''Cannot union a planar entity with a 3d entity''), h3))"
proof -
  from two_rects_noncoplanar obtain im ha hb plane h1 child_plane h2 where
    a: "1 < length two_rects \<and> c_parent (two_rects ! 1) = None
     \<and> inverse_transform K0 5 3 two_rects = (Inr im, ha)
     \<and> reset_cache 5 1 (reexpressed K0 1 im ha) = (Inr (), hb)
     \<and> c_body (hb ! 3) \<noteq> None
     \<and> get_plane K0 5 3 hb = (Inr plane, h1)
     \<and> get_plane K0 5 1 h1 = (Inr child_plane, h2)"
    and m: "\<not> planar_mix plane child_plane \<and> not_coplanar K0 plane child_plane"
    by blast
  have A: "Union_add K0 5 3 [1] two_rects
          = (Inl (ValueError ''Cannot union planar entities that are non-coplanar''), h2)"
    using Union_check_dimensionality[where K = K0 and n = 5 and self = 3 and child = 1
        and h = two_rects and im = im and ha = ha and hb = hb and plane = plane and ?h1.0 = h1
        and child_plane = child_plane and ?h2.0 = h2 and rest = "[]"] a m
    by blast
  from two_rects_mix obtain im' ha' hb' plane' h1' child_plane' h2' where
    a': "2 < length two_rects \<and> c_parent (two_rects ! 2) = None
     \<and> inverse_transform K0 5 3 two_rects = (Inr im', ha')
     \<and> reset_cache 5 2 (reexpressed K0 2 im' ha') = (Inr (), hb')
     \<and> c_body (hb' ! 3) \<noteq> None
     \<and> get_plane K0 5 3 hb' = (Inr plane', h1')
     \<and> get_plane K0 5 2 h1' = (Inr child_plane', h2')"
    and m': "planar_mix plane' child_plane'"
    by blast
  have B: "Union_add K0 5 3 [2] two_rects
          = (Inl (ValueError ''Cannot union a planar entity with a 3d entity''), h2')"
    using Union_check_dimensionality[where K = K0 and n = 5 and self = 3 and child = 2
        and h = two_rects and im = im' and ha = ha' and hb = hb' and plane = plane' and ?h1.0 = h1'
        and child_plane = child_plane' and ?h2.0 = h2' and rest = "[]"] a' m'
    by blast
  have C: "\<exists>h1 h2 h3. Rect_init K0 1 1 None [] = (Inr 0, h1) \<and> Box_init K0 1 1 1 None h1 = (1, h2)
          \<and> Union_init K0 (Suc (Suc 0)) [0, 1] None h2
               = (Inl (ValueError ''Cannot union a planar entity with a 3d entity''), h3)"
    using Union_check_dimensionality[where K = K0 and n = 0 and x = 1 and y = 1
        and a = 1 and b = 1 and c = 1] K0_rect_faces_ok
    by blast
  from A B C K0_rect_faces_ok show ?thesis by blast
qed


section \<open>Attachment, seeding and copying on concrete stores\<close>

lemmas eval_simps = model_simps K0_simps eval_nat_numeral copy_to_own_def copy_fields_def
  Difference_init_def Difference_init_process_child_def Difference_check_coplanarity_def
  seed_or_apply_def apply_to_targets_def Difference_add_def Difference_add_process_child_def

lemma moved_union_value:
  "moved_union =
    [(Component_init K0 Box_cls None)\<lparr>c_parent := Some 3, c_body := Some (''box'', 1, 0)\<rparr>,
     (Component_init K0 Box_cls None)\<lparr>c_body := Some (''box'', 1, 0)\<rparr>,
     (Component_init K0 Rect_cls None)\<lparr>c_body := Some (''face'', 1, 0)\<rparr>,
     (Component_init K0 Union_cls None)\<lparr>c_local_transform := (1, 5),
        c_body := Some (''box'', 1, 0), c_children := [0]\<rparr>]"
  by (simp add: moved_union_def eval_simps)

text \<open>
  C1. The equation between the world transform of a node and the local transform
  composed with the world transform of the parent fails in a store that the interface
  reaches. \<^verbatim>\<open>_add_children\<close> calls \<^verbatim>\<open>func(child)\<close> before it sets
  \<^verbatim>\<open>child._parent\<close>, and resets the caches only after the loop. With
  \<^verbatim>\<open>b0 = Box(1,1,1); b1 = Box(1,1,1); r = Rect(1,1); u = Union(b0); u.tx(5)\<close>, the call
  \<^verbatim>\<open>u.add(b1, r)\<close> attaches \<open>b1\<close>, whose world transform was cached while it had
  no parent, and then raises on \<open>r\<close>, so the reset is skipped: \<open>b1\<close> has the parent
  \<open>u\<close> and the local transform (1, -5), \<open>u\<close> answers (1, 5), the composition is
  (1, 0), and \<open>b1\<close> answers (1, -5).
\<close>

theorem stale_world_transform_after_failed_add:
  "fst (Union_add K0 5 3 [1, 2] moved_union)
      = Inl (ValueError ''Cannot union a planar entity with a 3d entity'')
   \<and> c_parent (after_failed_add ! 1) = Some 3
   \<and> c_local_transform (after_failed_add ! 1) = (1, - 5)
   \<and> fst (get_world_transform K0 5 1 after_failed_add) = Inr (1, - 5)
   \<and> fst (get_world_transform K0 5 3 after_failed_add) = Inr (1, 5)
   \<and> k_transformBy K0 (c_local_transform (after_failed_add ! 1)) (1, 5) = (1, 0)"
  by (simp add: after_failed_add_def moved_union_value eval_simps)

lemma nested_union_value:
  "nested_union =
    [(Component_init K0 Box_cls None)\<lparr>c_parent := Some 2, c_body := Some (''box'', 1, 0)\<rparr>,
     (Component_init K0 Box_cls None)\<lparr>c_parent := Some 3, c_body := Some (''box'', 1, 0)\<rparr>,
     (Component_init K0 Union_cls None)\<lparr>c_local_transform := (1, 5),
        c_body := Some (''box'', 1, 0), c_children := [0]\<rparr>,
     (Component_init K0 Union_cls None)\<lparr>c_body := Some (''box'', 1, 0), c_children := [1]\<rparr>]"
  by (simp add: nested_union_def eval_simps)

text \<open>
  C2. The local transform of an attached copy is not always the prior world transform of
  the original composed with the inverse of the world transform of the composite. With
  \<^verbatim>\<open>b0 = Box(1,1,1); b1 = Box(1,1,1); u = Union(b0); u.tx(5); a = Union(b1)\<close>, the call
  \<^verbatim>\<open>u.add(a, b1)\<close> returns. The world transform of \<open>b1\<close> is (1, 0) and the one of
  \<open>u\<close> is (1, 5), so the copy of \<open>b1\<close> should get the local transform (1, -5) and keep
  the world transform (1, 0). It gets (1, -10) and the world transform (1, -5): the
  callback ran on \<open>a\<close> while \<open>a\<close> was detached and already re-expressed, and
  cached the world transform (1, -5) for it; \<^verbatim>\<open>copy\<close> of \<open>b1\<close> then computes the
  world transform of \<open>b1\<close> from that cached value of its parent. The same two
  components added by two calls of \<^verbatim>\<open>add\<close> give (1, -5) and (1, 0).
\<close>

theorem attached_copy_off_by_inverse:
  "fst (get_world_transform K0 5 1 nested_union) = Inr (1, 0)
   \<and> fst (get_world_transform K0 5 2 nested_union) = Inr (1, 5)
   \<and> k_transformBy K0 (1, 0) (k_invert K0 (1, 5)) = (1, - 5)
   \<and> fst (Union_add K0 5 2 [3, 1] nested_union) = Inr ()
   \<and> c_children (after_nested_add ! 2) = [0, 3, 4]
   \<and> c_class (after_nested_add ! 4) = Box_cls
   \<and> c_parent (after_nested_add ! 4) = Some 2
   \<and> c_local_transform (after_nested_add ! 4) = (1, - 10)
   \<and> fst (get_world_transform K0 5 4 after_nested_add) = Inr (1, - 5)
   \<and> c_local_transform (after_separate_adds ! 4) = (1, - 5)
   \<and> fst (get_world_transform K0 5 4 after_separate_adds) = Inr (1, 0)"
  by (simp add: after_nested_add_def after_separate_adds_def nested_union_value eval_simps)



lemma empty_union_value:
  "empty_union =
    [(Component_init K0 Box_cls None)\<lparr>c_body := Some (''box'', 1, 0)\<rparr>,
     Component_init K0 Union_cls None]"
  by (simp add: empty_union_def eval_simps)

text \<open>
  C4. \<^verbatim>\<open>Union.add\<close> has no seeding branch. With \<^verbatim>\<open>b = Box(1,1,1); u = Union()\<close> the
  body of \<open>u\<close> is \<^verbatim>\<open>None\<close>; \<^verbatim>\<open>u.add(b)\<close> hands \<^verbatim>\<open>None\<close> to
  \<^verbatim>\<open>booleanOperation\<close> as the target, which the kernel refuses, and the body of \<open>u\<close>
  is still \<^verbatim>\<open>None\<close> afterwards. The constructor \<^verbatim>\<open>Union(b)\<close> seeds the body with
  the body of the box.
\<close>

theorem Union_add_never_seeds:
  "fst (Union_init K0 5 [] None (snd (Box_init K0 1 1 1 None []))) = Inr 1
   \<and> c_body (empty_union ! 1) = None
   \<and> fst (Union_add K0 5 1 [0] empty_union) = Inl KernelError
   \<and> c_body (snd (Union_add K0 5 1 [0] empty_union) ! 1) = None
   \<and> c_body (snd (Union_init K0 5 [0] None (snd (Box_init K0 1 1 1 None []))) ! 1)
        = Some (''box'', 1, 0)"
  by (simp add: empty_union_value eval_simps)

lemma moved_difference_value:
  "moved_difference =
    [(Component_init K0 Box_cls None)\<lparr>c_parent := Some 1, c_body := Some (''box'', 1, 0)\<rparr>,
     (Component_init K0 Difference_cls None)\<lparr>c_local_transform := (1, 5),
        c_bodies := Some [(''box'', 1, 0)], c_children := [0]\<rparr>]"
  by (simp add: moved_difference_def eval_simps)

text \<open>
  C9. The copy of a Difference does not hold a copy of the geometry that the source owns.
  \<^verbatim>\<open>Difference._copy_to\<close> copies \<^verbatim>\<open>self.bodies()\<close>, the bodies in the world frame,
  where \<^verbatim>\<open>Union._copy_to\<close> copies \<^verbatim>\<open>self._body\<close>. With
  \<^verbatim>\<open>d = Difference(Box(1,1,1)); d.tx(5); c = d.copy()\<close> the copy has the class of the
  source, no parent and the local transform (1, 5), the world transform of the source;
  the source owns the body placed at 0 and shows it at 5; the copy owns a body placed at
  5 and shows it at 10.
\<close>

theorem Difference_copy_transforms_bodies_twice:
  "fst (copy K0 5 1 moved_difference) = Inr 2
   \<and> c_class (after_copy ! 2) = Difference_cls
   \<and> c_parent (after_copy ! 2) = None
   \<and> c_local_transform (after_copy ! 2) = (1, 5)
   \<and> fst (get_world_transform K0 5 1 after_copy) = Inr (1, 5)
   \<and> c_bodies (after_copy ! 1) = Some [(''box'', 1, 0)]
   \<and> c_bodies (after_copy ! 2) = Some [(''box'', 1, 5)]
   \<and> fst (bodies K0 5 1 after_copy) = Inr [(''box'', 1, 5)]
   \<and> fst (bodies K0 5 2 after_copy) = Inr [(''box'', 1, 10)]"
  by (simp add: after_copy_def moved_difference_value eval_simps)


section \<open>Difference\<close>






















section \<open>Intersection\<close>






















end
